theory Spec2Isabelle
  imports Main "HOL-Library.Word"
begin

unbundle bit_operations_syntax

section \<open>Data model of piezo.c\<close>

text \<open>
  The target is an STM32 (Cortex-M3): \<open>unsigned int\<close> and \<open>uint32_t\<close> are 32-bit
  words, \<open>uint16_t\<close> is a 16-bit word, \<open>uint8_t\<close> an 8-bit word, and the machine is
  little-endian.
\<close>

record piezo_sample_t =
  freq :: "16 word"
  duration :: "16 word"

text \<open>
  Modelled from the spec: \<open>PIEZO_BUFFER_LEN\<close> is declared in piezo.h, which is not
  among the sources. The spec fixes the capacity \<open>N\<close> at 32, and the comment in
  \<open>piezo_init_beep\<close> says ``The piezo buffer len is currently 32''.
\<close>

definition PIEZO_BUFFER_LEN :: "32 word" where
  "PIEZO_BUFFER_LEN = 32"

text \<open>
  The static variables of piezo.c together with the hardware the driver touches
  (the NVIC enable bit of the TIM3 interrupt, and TIM3's auto-reload, counter and
  status registers).

  \<open>sample_buffer\<close> holds the cells of the array, addressed by their index; the array
  has the cells below \<open>PIEZO_BUFFER_LEN\<close>, and no operation of the model writes another
  cell.
\<close>

record piezo_state =
  sample_buffer :: "nat \<Rightarrow> piezo_sample_t"
  buffer_free_pos :: "32 word"
  buffer_cur_pos :: "32 word"
  elapsed_piezo_time :: "32 word"
  piezo_duration :: "32 word"
  tim3_irq_enabled :: bool
  tim3_period :: "32 word"
  tim3_counter :: "32 word"
  tim3_sr :: "32 word"

text \<open>
  The state after the C runtime has zeroed the statics and \<open>piezo_init\<close> has run:
  the interrupt is disabled in the NVIC and the period is 1.
\<close>

definition piezo_init_state :: piezo_state where
  "piezo_init_state =
     \<lparr> sample_buffer = (\<lambda>_. \<lparr> freq = 0, duration = 0 \<rparr>),
       buffer_free_pos = 0,
       buffer_cur_pos = 0,
       elapsed_piezo_time = 0,
       piezo_duration = 0,
       tim3_irq_enabled = False,
       tim3_period = 1,
       tim3_counter = 0,
       tim3_sr = 0 \<rparr>"

section \<open>The ring buffer\<close>

text \<open>\<open>free_samples\<close>, lines 50-59.\<close>

definition free_samples :: "piezo_state \<Rightarrow> 32 word" where
  "free_samples s =
     (if buffer_free_pos s = buffer_cur_pos s then PIEZO_BUFFER_LEN
      else if buffer_free_pos s < buffer_cur_pos s then buffer_cur_pos s - buffer_free_pos s
      else (let tmp = buffer_free_pos s - buffer_cur_pos s in PIEZO_BUFFER_LEN - tmp))"

text \<open>
  The wire format: a sample is four bytes, two little-endian 16-bit fields, which is
  what copying the bytes over a \<open>piezo_sample_t\<close> gives on this machine.
\<close>

definition le16 :: "8 word \<Rightarrow> 8 word \<Rightarrow> 16 word" where
  "le16 lo hi = push_bit 8 (ucast hi) OR ucast lo"

fun decode_samples :: "8 word list \<Rightarrow> piezo_sample_t list" where
  "decode_samples (b0 # b1 # b2 # b3 # rest) =
     \<lparr> freq = le16 b0 b1, duration = le16 b2 b3 \<rparr> # decode_samples rest"
| "decode_samples _ = []"

text \<open>Writing a run of samples into the store, first sample at cell \<open>p\<close>.\<close>

definition store_samples ::
  "(nat \<Rightarrow> piezo_sample_t) \<Rightarrow> nat \<Rightarrow> piezo_sample_t list \<Rightarrow> (nat \<Rightarrow> piezo_sample_t)" where
  "store_samples buf p xs = (\<lambda>i. if p \<le> i \<and> i < p + length xs then xs ! (i - p) else buf i)"

text \<open>
  A \<open>memcpy\<close> whose destination runs past the end of \<open>sample_buffer\<close> is undefined
  behaviour in C: what it overwrites depends on what the linker has placed behind the
  array, and the cursors are declared right behind it (lines 22-24). The model stops
  there with a fault. The fault records the array as the copy left it and the samples
  that fell outside, each with the cell offset it was written to. Nothing is said
  about the state of the driver after a fault.
\<close>

datatype fault = Out_of_bounds "nat \<Rightarrow> piezo_sample_t" "(nat \<times> piezo_sample_t) list"

text \<open>Sequencing of calls that may fault.\<close>

definition then_do :: "fault + 'a \<Rightarrow> ('a \<Rightarrow> fault + 'b) \<Rightarrow> fault + 'b" where
  "then_do r f = (case r of Inl e \<Rightarrow> Inl e | Inr x \<Rightarrow> f x)"

text \<open>
  \<open>memcpy(&sample_buffer[pos], data, bytes)\<close>. The driver only calls it with a
  byte count that is a multiple of four, so whole samples are copied. Nothing in
  \<open>memcpy\<close> knows where the array ends: \<open>room\<close> is the number of cells from \<open>pos\<close> to
  the end of the array, and a copy of more than \<open>4 * room\<close> bytes is a fault.
\<close>

definition memcpy_samples ::
  "(nat \<Rightarrow> piezo_sample_t) \<Rightarrow> 32 word \<Rightarrow> 8 word list \<Rightarrow> 32 word
     \<Rightarrow> fault + (nat \<Rightarrow> piezo_sample_t)" where
  "memcpy_samples buf pos data bytes =
     (let xs = decode_samples (take (unat bytes) data);
          room = unat PIEZO_BUFFER_LEN - unat pos
      in if unat bytes \<le> 4 * room then Inr (store_samples buf (unat pos) xs)
         else Inl (Out_of_bounds (store_samples buf (unat pos) (take room xs))
                     (zip [unat pos + room ..< unat pos + length xs] (drop room xs))))"

text \<open>
  The first copy of \<open>piezo_recv\<close>, lines 106-125: taken when the free position is
  above the read position. It returns the advanced data pointer, the samples still to
  copy, and the state.
\<close>

definition recv_copy_back ::
  "8 word list \<Rightarrow> 32 word \<Rightarrow> piezo_state
     \<Rightarrow> fault + (8 word list \<times> 32 word \<times> piezo_state)" where
  "recv_copy_back data incoming_samples s =
     (if buffer_free_pos s > buffer_cur_pos s then
        (let samples_at_back = PIEZO_BUFFER_LEN - buffer_free_pos s;
             samples_to_copy = min samples_at_back incoming_samples;
             bytes = samples_to_copy * 4
         in then_do (memcpy_samples (sample_buffer s) (buffer_free_pos s) data bytes)
              (\<lambda>buf.
                 (let s1 = s\<lparr> sample_buffer := buf \<rparr>;
                      s2 = s1\<lparr> buffer_free_pos := buffer_free_pos s1 + samples_to_copy \<rparr>;
                      s3 = s2\<lparr> buffer_free_pos := buffer_free_pos s2 mod PIEZO_BUFFER_LEN \<rparr>
                  in Inr (drop (unat bytes) data, incoming_samples - samples_to_copy, s3))))
      else Inr (data, incoming_samples, s))"

text \<open>The second copy, lines 127-140: whatever is left goes to the free position.\<close>

definition recv_copy_front ::
  "8 word list \<Rightarrow> 32 word \<Rightarrow> piezo_state \<Rightarrow> fault + piezo_state" where
  "recv_copy_front data incoming_samples s =
     (if incoming_samples > 0 then
        (let bytes = incoming_samples * 4
         in then_do (memcpy_samples (sample_buffer s) (buffer_free_pos s) data bytes)
              (\<lambda>buf.
                 (let s1 = s\<lparr> sample_buffer := buf \<rparr>;
                      s2 = s1\<lparr> buffer_free_pos := buffer_free_pos s1 + incoming_samples \<rparr>
                  in Inr (s2\<lparr> buffer_free_pos := buffer_free_pos s2 mod PIEZO_BUFFER_LEN \<rparr>))))
      else Inr s)"

text \<open>
  \<open>piezo_recv\<close>, lines 88-143. The C function returns \<open>true\<close> on each of its three
  early exits and \<open>false\<close> after copying the burst in. \<open>data\<close> is the memory at the
  caller's pointer, which holds at least \<open>size\<close> bytes.
\<close>

definition piezo_recv ::
  "32 word \<Rightarrow> 8 word list \<Rightarrow> piezo_state \<Rightarrow> fault + (bool \<times> piezo_state)" where
  "piezo_recv sz data s =
     (if sz = 0 then Inr (True, s)
      else if sz AND 3 \<noteq> 0 then Inr (True, s)
      else
        (let incoming_samples = sz div 4 in
           if incoming_samples \<ge> free_samples s then Inr (True, s)
           else
             then_do (recv_copy_back data incoming_samples s)
               (\<lambda>(data1, incoming1, s1).
                  then_do (recv_copy_front data1 incoming1 s1) (\<lambda>s2. Inr (False, s2)))))"

section \<open>The square-wave generator\<close>

text \<open>\<open>configure_piezo_timer\<close>, lines 61-79.\<close>

definition configure_piezo_timer :: "piezo_sample_t \<Rightarrow> piezo_state \<Rightarrow> piezo_state" where
  "configure_piezo_timer ps s =
     (if freq ps = 0 then s\<lparr> tim3_irq_enabled := False \<rparr>
      else
        (let f = (min 10000 (ucast (freq ps)) :: 32 word);
             delay = 1000000 div f;
             delay2 = delay div 2
         in s\<lparr> tim3_sr := 0, tim3_period := delay2, tim3_counter := 0,
               tim3_irq_enabled := True \<rparr>))"

section \<open>The playback scheduler\<close>

text \<open>\<open>piezo_tick\<close>, lines 145-173.\<close>

definition piezo_tick :: "piezo_state \<Rightarrow> piezo_state" where
  "piezo_tick s =
     (if elapsed_piezo_time s < piezo_duration s then
        s\<lparr> elapsed_piezo_time := elapsed_piezo_time s + 1 \<rparr>
      else
        (let s1 = (if elapsed_piezo_time s \<le> piezo_duration s + 5
                   then s\<lparr> tim3_irq_enabled := False \<rparr> else s)
         in if buffer_free_pos s1 = buffer_cur_pos s1 then
              s1\<lparr> tim3_irq_enabled := False, elapsed_piezo_time := 0, piezo_duration := 0 \<rparr>
            else
              (let ps = sample_buffer s1 (unat (buffer_cur_pos s1));
                   s2 = configure_piezo_timer ps s1;
                   s3 = s2\<lparr> piezo_duration := ucast (duration ps) \<rparr>;
                   s4 = s3\<lparr> elapsed_piezo_time := 0 \<rparr>;
                   s5 = s4\<lparr> buffer_cur_pos := buffer_cur_pos s4 + 1 \<rparr>
               in s5\<lparr> buffer_cur_pos := buffer_cur_pos s5 mod PIEZO_BUFFER_LEN \<rparr>)))"

text \<open>
  What a tick takes out of the queue: \<open>piezo_tick\<close> reads
  \<open>sample_buffer[buffer_cur_pos]\<close> and advances \<open>buffer_cur_pos\<close> exactly when it
  passes both of its early returns (lines 150-153 and 160-165).
\<close>

definition tick_sample :: "piezo_state \<Rightarrow> piezo_sample_t option" where
  "tick_sample s =
     (if elapsed_piezo_time s < piezo_duration s then None
      else if buffer_free_pos s = buffer_cur_pos s then None
      else Some (sample_buffer s (unat (buffer_cur_pos s))))"

section \<open>Producer and tick, interleaved\<close>

text \<open>
  The two entry points that touch the queue are \<open>piezo_recv\<close> (the producer) and
  \<open>piezo_tick\<close> (the 1 kHz tick). A history is a list of such calls, run one after
  the other; it ends at the first fault.
\<close>

datatype event = Recv "32 word" "8 word list" | Tick

fun step :: "event \<Rightarrow> piezo_state \<Rightarrow> fault + piezo_state" where
  "step (Recv sz data) s = then_do (piezo_recv sz data s) (\<lambda>(r, s'). Inr s')"
| "step Tick s = Inr (piezo_tick s)"

fun run :: "event list \<Rightarrow> piezo_state \<Rightarrow> fault + piezo_state" where
  "run [] s = Inr s"
| "run (e # es) s = then_do (step e s) (run es)"

text \<open>
  The number of samples in the queue along a history, counted from outside, up to the
  end of the history or its first fault: a call of \<open>piezo_recv\<close> that returns \<open>false\<close>
  has taken \<open>size / 4\<close> samples in, and a tick that reaches the read at line 168 has
  taken one out.
\<close>

fun occupancy :: "event list \<Rightarrow> piezo_state \<Rightarrow> int \<Rightarrow> int" where
  "occupancy [] s k = k"
| "occupancy (Recv sz data # es) s k =
     (case piezo_recv sz data s of
        Inl e \<Rightarrow> k
      | Inr (r, s') \<Rightarrow> occupancy es s' (if r then k else k + uint (sz div 4)))"
| "occupancy (Tick # es) s k =
     occupancy es (piezo_tick s) (if tick_sample s = None then k else k - 1)"

text \<open>
  The samples taken in by calls that returned \<open>false\<close>, and the samples the ticks took
  out, up to the end of the history or its first fault.
\<close>

fun enqueued :: "event list \<Rightarrow> piezo_state \<Rightarrow> piezo_sample_t list" where
  "enqueued [] s = []"
| "enqueued (Recv sz data # es) s =
     (case piezo_recv sz data s of
        Inl e \<Rightarrow> []
      | Inr (r, s') \<Rightarrow>
          (if r then [] else decode_samples (take (unat sz) data)) @ enqueued es s')"
| "enqueued (Tick # es) s = enqueued es (piezo_tick s)"

fun played :: "event list \<Rightarrow> piezo_state \<Rightarrow> piezo_sample_t list" where
  "played [] s = []"
| "played (Recv sz data # es) s =
     (case piezo_recv sz data s of Inl e \<Rightarrow> [] | Inr (r, s') \<Rightarrow> played es s')"
| "played (Tick # es) s =
     (case tick_sample s of None \<Rightarrow> [] | Some ps \<Rightarrow> [ps]) @ played es (piezo_tick s)"

text \<open>
  The queue as the read side sees it: the cells from \<open>buffer_cur_pos\<close> up to
  \<open>buffer_free_pos\<close>, going round the array.
\<close>

definition queued_count :: "piezo_state \<Rightarrow> nat" where
  "queued_count s =
     (unat (buffer_free_pos s) + unat PIEZO_BUFFER_LEN - unat (buffer_cur_pos s))
       mod unat PIEZO_BUFFER_LEN"

definition queued_samples :: "piezo_state \<Rightarrow> piezo_sample_t list" where
  "queued_samples s =
     map (\<lambda>k. sample_buffer s ((unat (buffer_cur_pos s) + k) mod unat PIEZO_BUFFER_LEN))
       [0 ..< queued_count s]"

text \<open>Both cursors index the array.\<close>

definition cursors_ok :: "piezo_state \<Rightarrow> bool" where
  "cursors_ok s = (buffer_free_pos s < PIEZO_BUFFER_LEN \<and> buffer_cur_pos s < PIEZO_BUFFER_LEN)"

section \<open>The startup beeps\<close>

text \<open>\<open>fw_tones\<close>, lines 176-177.\<close>

definition fw_tones :: "16 word list" where
  "fw_tones = [261, 196, 164, 130]"

text \<open>\<open>(uint8_t*)&samp\<close>: the four bytes of a sample in memory.\<close>

definition sample_bytes :: "piezo_sample_t \<Rightarrow> 8 word list" where
  "sample_bytes ps =
     [ucast (freq ps), ucast (drop_bit 8 (freq ps)),
      ucast (duration ps), ucast (drop_bit 8 (duration ps))]"

text \<open>
  One call \<open>piezo_recv(sizeof(samp), (uint8_t*)&samp)\<close> as at lines 211 and 214, its
  result dropped.
\<close>

definition recv_sample :: "piezo_sample_t \<Rightarrow> piezo_state \<Rightarrow> fault + piezo_state" where
  "recv_sample ps s = then_do (piezo_recv 4 (sample_bytes ps) s) (\<lambda>(r, s'). Inr s')"

text \<open>The body of the inner loop, lines 208-214.\<close>

definition beep_once :: "16 word \<Rightarrow> piezo_state \<Rightarrow> fault + piezo_state" where
  "beep_once tone_freq s =
     (let samp = \<lparr> freq = tone_freq, duration = 150 \<rparr>
      in then_do (recv_sample samp s)
           (\<lambda>s1. (let samp2 = samp\<lparr> freq := 0, duration := 15 \<rparr> in recv_sample samp2 s1)))"

text \<open>The inner loop, line 207, by the number of iterations still to run.\<close>

fun beep_loop :: "nat \<Rightarrow> 16 word \<Rightarrow> piezo_state \<Rightarrow> fault + piezo_state" where
  "beep_loop 0 tone_freq s = Inr s"
| "beep_loop (Suc n) tone_freq s = then_do (beep_once tone_freq s) (beep_loop n tone_freq)"

text \<open>
  \<open>piezo_init_beep\<close>, lines 179-220. \<open>SR_DEV_REV\<close> is a macro that is not among the
  sources; its value is the parameter \<open>sr_dev_rev\<close>.
\<close>

definition piezo_init_beep :: "32 word \<Rightarrow> piezo_state \<Rightarrow> fault + piezo_state" where
  "piezo_init_beep sr_dev_rev s =
     (let dev_rev = (ucast (sr_dev_rev AND 0xFF) :: 8 word);
          tone_count = [dev_rev AND 3, drop_bit 2 dev_rev AND 3,
                        drop_bit 4 dev_rev AND 3, drop_bit 6 dev_rev AND 3]
      in fold (\<lambda>i r. (let count = tone_count ! (3 - i);
                           tone_freq = fw_tones ! (3 - i)
                       in then_do r (beep_loop (unat count) tone_freq)))
           [0, 1, 2, 3] (Inr s))"

text \<open>
  The startup sequence in the words of the specification: the revision byte is four
  2-bit fields; for each field, most significant first, as many pairs as the field's
  value of a 150 ms tone at the field's frequency and a 15 ms silence.
\<close>

definition field_value :: "8 word \<Rightarrow> nat \<Rightarrow> nat" where
  "field_value r k = (unat r div 4 ^ k) mod 4"

definition startup_sequence_spec :: "8 word \<Rightarrow> piezo_sample_t list" where
  "startup_sequence_spec r =
     concat (map (\<lambda>k. concat (replicate (field_value r k)
                          [\<lparr> freq = fw_tones ! k, duration = 150 \<rparr>, \<lparr> freq = 0, duration = 15 \<rparr>]))
               [3, 2, 1, 0])"

text \<open>Handing a list of samples to \<open>piezo_recv\<close>, one call per sample.\<close>

fun feed :: "piezo_sample_t list \<Rightarrow> piezo_state \<Rightarrow> fault + piezo_state" where
  "feed [] s = Inr s"
| "feed (ps # rest) s = then_do (recv_sample ps s) (feed rest)"

text \<open>The tests of the three early exits of \<open>piezo_recv\<close>, lines 89-102.\<close>

definition recv_refuses :: "32 word \<Rightarrow> piezo_state \<Rightarrow> bool" where
  "recv_refuses sz s = (sz = 0 \<or> sz AND 3 \<noteq> 0 \<or> free_samples s \<le> sz div 4)"

text \<open>Whether a call of \<open>piezo_recv\<close> came back with \<open>true\<close>.\<close>

definition returned_true :: "fault + bool \<times> piezo_state \<Rightarrow> bool" where
  "returned_true r = (case r of Inl e \<Rightarrow> False | Inr (b, s') \<Rightarrow> b)"

section \<open>Arithmetic of the cursors\<close>

lemma and3: "(sz :: 32 word) AND 3 = 0 \<longleftrightarrow> unat sz mod 4 = 0"
proof -
  have "sz AND 3 = sz AND mask 2" by (simp add: mask_eq_exp_minus_1)
  also have "\<dots> = take_bit 2 sz" by (simp add: take_bit_eq_mask)
  finally have e: "sz AND 3 = take_bit 2 sz" .
  have "unat (take_bit 2 sz) = unat sz mod 4"
    by (simp add: unsigned_take_bit_eq take_bit_eq_mod unat_mod)
  with e show ?thesis by (simp add: word_unat_eq_iff)
qed

lemma div4_pos: "(sz :: 32 word) \<noteq> 0 \<Longrightarrow> sz AND 3 = 0 \<Longrightarrow> 0 < sz div 4"
proof -
  assume a: "sz \<noteq> 0" "sz AND 3 = 0"
  from a(1) have "0 < unat sz" by (simp add: word_unat_eq_iff)
  moreover from a(2) have "unat sz mod 4 = 0" by (simp add: and3)
  ultimately have "0 < unat sz div 4" by arith
  then show ?thesis by (simp add: unat_div word_less_nat_alt)
qed

lemma unat_add_small:
  "unat (a :: 32 word) < 64 \<Longrightarrow> unat (b :: 32 word) < 64 \<Longrightarrow> unat (a + b) = unat a + unat b"
proof -
  assume "unat a < 64" "unat b < 64"
  then have "unat a + unat b < 2 ^ LENGTH(32)" by simp
  then show ?thesis by (simp only: unat_add_lem)
qed

lemma unat_add_mod32:
  "unat (a :: 32 word) < 64 \<Longrightarrow> unat (b :: 32 word) < 64 \<Longrightarrow>
     unat ((a + b) mod 32) = (unat a + unat b) mod 32"
  by (simp add: unat_mod unat_add_small)

lemma cursors_ok_unat:
  "cursors_ok s \<longleftrightarrow> unat (buffer_free_pos s) < 32 \<and> unat (buffer_cur_pos s) < 32"
  by (simp add: cursors_ok_def PIEZO_BUFFER_LEN_def word_less_nat_alt)

lemma unat_free_samples:
  assumes "cursors_ok s"
  shows "unat (free_samples s) = 32 - queued_count s"
proof -
  let ?f = "buffer_free_pos s" and ?c = "buffer_cur_pos s"
  from assms have b: "unat ?f < 32" "unat ?c < 32" by (simp_all add: cursors_ok_unat)
  show ?thesis
  proof (cases "?f = ?c")
    case True
    then show ?thesis
      by (simp add: free_samples_def queued_count_def PIEZO_BUFFER_LEN_def)
  next
    case ne: False
    show ?thesis
    proof (cases "?f < ?c")
      case True
      then have lt: "unat ?f < unat ?c" by (simp add: word_less_nat_alt)
      from True have "unat (?c - ?f) = unat ?c - unat ?f" by (simp add: unat_sub)
      moreover from lt b have "(unat ?f + 32 - unat ?c) mod 32 = unat ?f + 32 - unat ?c" by simp
      ultimately show ?thesis using True ne lt b
        by (simp add: free_samples_def queued_count_def PIEZO_BUFFER_LEN_def)
    next
      case False
      with ne have gt: "unat ?c < unat ?f"
        by (simp add: word_less_nat_alt word_unat_eq_iff)
      then have le: "?c \<le> ?f" by (simp add: word_le_nat_alt)
      then have d: "unat (?f - ?c) = unat ?f - unat ?c" by (simp add: unat_sub)
      then have "?f - ?c \<le> 32" using b by (simp add: word_le_nat_alt)
      then have "unat (32 - (?f - ?c)) = 32 - (unat ?f - unat ?c)" using d by (simp add: unat_sub)
      moreover from gt b have "(unat ?f + 32 - unat ?c) mod 32 = unat ?f - unat ?c" 
        by (simp add: mod_if)
      ultimately show ?thesis using False ne
        by (simp add: free_samples_def queued_count_def PIEZO_BUFFER_LEN_def Let_def)
    qed
  qed
qed

lemma then_do_simps [simp]:
  "then_do (Inl e) f = Inl e"
  "then_do (Inr x) f = f x"
  by (simp_all add: then_do_def)

lemma unat_times4:
  assumes "unat (a :: 32 word) \<le> 32"
  shows "unat (a * 4) = 4 * unat a"
proof -
  have "unat a * unat (4 :: 32 word) < 2 ^ LENGTH(32)" using assms by simp
  then have "unat (a * 4) = unat a * unat (4 :: 32 word)" by (simp only: unat_mult_lem)
  then show ?thesis by simp
qed

text \<open>A copy that stays inside the array, and one that does not.\<close>

lemma memcpy_inside:
  "unat bytes \<le> 4 * (32 - unat pos) \<Longrightarrow>
     memcpy_samples buf pos data bytes
       = Inr (store_samples buf (unat pos) (decode_samples (take (unat bytes) data)))"
  by (simp add: memcpy_samples_def Let_def PIEZO_BUFFER_LEN_def)

lemma memcpy_outside:
  "\<not> unat bytes \<le> 4 * (32 - unat pos) \<Longrightarrow>
     memcpy_samples buf pos data bytes
       = Inl (Out_of_bounds
           (store_samples buf (unat pos)
              (take (32 - unat pos) (decode_samples (take (unat bytes) data))))
           (zip [unat pos + (32 - unat pos)
                   ..< unat pos + length (decode_samples (take (unat bytes) data))]
              (drop (32 - unat pos) (decode_samples (take (unat bytes) data)))))"
  by (simp add: memcpy_samples_def Let_def PIEZO_BUFFER_LEN_def)

lemma recv_refused: "recv_refuses sz s \<Longrightarrow> piezo_recv sz data s = Inr (True, s)"
  by (auto simp add: recv_refuses_def piezo_recv_def Let_def)

lemma recv_copies:
  "\<not> recv_refuses sz s \<Longrightarrow>
     piezo_recv sz data s =
       then_do (recv_copy_back data (sz div 4) s)
         (\<lambda>(data1, incoming1, s1).
            then_do (recv_copy_front data1 incoming1 s1) (\<lambda>s2. Inr (False, s2)))"
  by (auto simp add: recv_refuses_def piezo_recv_def Let_def)

lemma recv_true_iff:
  "piezo_recv sz data s = Inr (True, s') \<longleftrightarrow> s' = s \<and> recv_refuses sz s"
proof (cases "recv_refuses sz s")
  case True
  then show ?thesis by (auto simp add: recv_refused)
next
  case False
  have "piezo_recv sz data s \<noteq> Inr (True, s')"
    unfolding recv_copies [OF False]
    by (auto simp add: then_do_def split: sum.splits prod.splits)
  with False show ?thesis by simp
qed


lemma recv_in_array:
  assumes ok: "cursors_ok s" and nr: "\<not> recv_refuses sz s"
    and fit: "buffer_free_pos s \<noteq> buffer_cur_pos s
              \<or> unat (buffer_free_pos s) + unat (sz div 4) \<le> 32"
  shows "\<exists>buf. piezo_recv sz data s =
           Inr (False, s\<lparr> sample_buffer := buf,
                          buffer_free_pos := (buffer_free_pos s + sz div 4) mod 32 \<rparr>)"
proof -
  let ?f = "buffer_free_pos s" and ?c = "buffer_cur_pos s" and ?n = "sz div 4"
  from ok have b: "unat ?f < 32" "unat ?c < 32" by (simp_all add: cursors_ok_unat)
  from nr have v: "sz \<noteq> 0" "sz AND 3 = 0" "?n < free_samples s"
    by (simp_all add: recv_refuses_def not_le)
  from v have npos: "0 < ?n" by (simp add: div4_pos)
  from v(3) have "unat ?n < unat (free_samples s)" by (simp add: word_less_nat_alt)
  then have nfs: "unat ?n < 32 - queued_count s" by (simp add: unat_free_samples [OF ok])
  then have n32: "unat ?n < 32" by simp
  have n4: "unat (?n * 4) = 4 * unat ?n" using n32 by (simp add: unat_times4)
  show ?thesis
  proof (cases "?c < ?f")
    case False
    then have le: "unat ?f \<le> unat ?c" by (simp add: word_less_nat_alt)
    have bk: "recv_copy_back data ?n s = Inr (data, ?n, s)"
      using False by (simp add: recv_copy_back_def)
    have "unat ?f + unat ?n \<le> 32"
    proof (cases "?f = ?c")
      case True
      with fit show ?thesis by simp
    next
      case ne: False
      then have "unat ?f < unat ?c" using le by (simp add: word_unat_eq_iff)
      then have "queued_count s = unat ?f + 32 - unat ?c"
        using b by (simp add: queued_count_def PIEZO_BUFFER_LEN_def)
      with nfs b show ?thesis by simp
    qed
    then have "unat (?n * 4) \<le> 4 * (32 - unat ?f)" using n4 by simp
    from memcpy_inside [OF this] show ?thesis
      unfolding recv_copies [OF nr] bk
      using npos by (simp add: recv_copy_front_def Let_def PIEZO_BUFFER_LEN_def)
        (rule exI, rule refl)
  next
    case True
    then have cf: "unat ?c < unat ?f" by (simp add: word_less_nat_alt)
    have f32: "?f \<le> 32" using b by (simp add: word_le_nat_alt)
    then have ab: "unat (32 - ?f) = 32 - unat ?f" by (simp add: unat_sub)
    show ?thesis
    proof (cases "32 - ?f \<le> ?n")
      case fits: False
      then have m: "min (32 - ?f) ?n = ?n" by (simp add: min_def)
      from fits have "unat ?n \<le> 32 - unat ?f" using ab by (simp add: word_le_nat_alt)
      then have "unat (?n * 4) \<le> 4 * (32 - unat ?f)" using n4 by simp
      from memcpy_inside [OF this] show ?thesis
        unfolding recv_copies [OF nr]
        using True by (simp add: recv_copy_back_def recv_copy_front_def Let_def
              PIEZO_BUFFER_LEN_def m) (rule exI, rule refl)
    next
      case wraps: True
      then have m: "min (32 - ?f) ?n = 32 - ?f" by (simp add: min_def)
      from wraps have un: "32 - unat ?f \<le> unat ?n" using ab by (simp add: word_le_nat_alt)
      have rest: "unat (?n - (32 - ?f)) = unat ?n - (32 - unat ?f)"
        using wraps ab by (simp add: unat_sub)
      have "queued_count s = unat ?f - unat ?c"
        using cf b by (simp add: queued_count_def PIEZO_BUFFER_LEN_def mod_if)
      then have rlt: "unat (?n - (32 - ?f)) < 32" using rest nfs by simp
      have b4: "unat ((32 - ?f) * 4) = 4 * (32 - unat ?f)"
        using ab unat_times4 [of "32 - ?f"] by simp
      then have c1: "unat ((32 - ?f) * 4) \<le> 4 * (32 - unat ?f)" by simp
      have r4: "unat ((?n - (32 - ?f)) * 4) \<le> 4 * (32 - unat (0 :: 32 word))"
        using rlt unat_times4 [of "?n - (32 - ?f)"] by simp
      have pos: "(if 0 < ?n - (32 - ?f) then (?n - (32 - ?f)) mod 32 else 0) = (?f + ?n) mod 32"
      proof -
        have "unat ((?n - (32 - ?f)) mod 32) = (unat ?f + unat ?n) mod 32"
        proof -
          from un have "unat ?f + unat ?n = (unat ?n - (32 - unat ?f)) + 32" using b by simp
          then have "(unat ?n - (32 - unat ?f)) mod 32 = (unat ?f + unat ?n) mod 32"
            by (metis mod_add_self2)
          then show ?thesis by (simp add: unat_mod rest)
        qed
        then have e: "(?n - (32 - ?f)) mod 32 = (?f + ?n) mod 32"
          using b n32 by (simp add: word_unat_eq_iff unat_add_mod32)
        show ?thesis
        proof (cases "0 < ?n - (32 - ?f)")
          case True
          then show ?thesis by (simp add: e)
        next
          case False
          then have z: "?n - (32 - ?f) = 0" by (metis word_neq_0_conv)
          from e have "(?f + ?n) mod 32 = 0" unfolding z by simp
          then show ?thesis using False by simp
        qed
      qed
      define bts where "bts = (32 - ?f) * 4"
      define inc where "inc = ?n - (32 - ?f)"
      define d1 where "d1 = drop (unat bts) data"
      define s1 where "s1 = s\<lparr> sample_buffer :=
                     store_samples (sample_buffer s) (unat ?f)
                       (decode_samples (take (unat bts) data)),
                   buffer_free_pos := 0 \<rparr>"
      have c1': "unat bts \<le> 4 * (32 - unat ?f)" using c1 by (simp only: bts_def)
      have rlt': "unat inc < 32" using rlt by (simp only: inc_def)
      have w0: "(?f + (32 - ?f)) mod 32 = 0" by simp
      have bk: "recv_copy_back data ?n s = Inr (d1, inc, s1)"
        unfolding recv_copy_back_def Let_def PIEZO_BUFFER_LEN_def m
          bts_def [symmetric] inc_def [symmetric]
        using True by (simp add: memcpy_inside [OF c1'] w0 d1_def s1_def)
      have pos': "(if 0 < inc then inc mod 32 else 0) = (?f + ?n) mod 32"
        using pos by (simp only: inc_def)
      have fr: "\<exists>buf. recv_copy_front d1 inc s1 =
                  Inr (s\<lparr> sample_buffer := buf, buffer_free_pos := (?f + ?n) mod 32 \<rparr>)"
      proof (cases "0 < inc")
        case gt: True
        define b2 where "b2 = inc * 4"
        have r4': "unat b2 \<le> 4 * (32 - unat (buffer_free_pos s1))"
          using rlt' unat_times4 [of inc] by (simp add: b2_def s1_def)
        have "recv_copy_front d1 inc s1 =
                Inr (s1\<lparr> sample_buffer :=
                       store_samples (sample_buffer s1) (unat (buffer_free_pos s1))
                         (decode_samples (take (unat b2) d1)),
                     buffer_free_pos := (buffer_free_pos s1 + inc) mod 32 \<rparr>)"
          unfolding recv_copy_front_def Let_def PIEZO_BUFFER_LEN_def b2_def [symmetric]
          using gt by (simp add: memcpy_inside [OF r4'])
        then show ?thesis using pos' gt by (simp add: s1_def) (rule exI, rule refl)
      next
        case z: False
        then have "recv_copy_front d1 inc s1 = Inr s1"
          by (simp only: recv_copy_front_def if_False)
        then show ?thesis using pos' z by (simp add: s1_def) (rule exI, rule refl)
      qed
      then obtain buf where
        "recv_copy_front d1 inc s1 =
           Inr (s\<lparr> sample_buffer := buf, buffer_free_pos := (?f + ?n) mod 32 \<rparr>)" ..
      then have "piezo_recv sz data s =
           Inr (False, s\<lparr> sample_buffer := buf, buffer_free_pos := (?f + ?n) mod 32 \<rparr>)"
        by (simp only: recv_copies [OF nr] bk then_do_simps prod.case)
      then show ?thesis by blast
    qed
  qed
qed


lemma queued_count_less: "queued_count s < 32"
  by (simp add: queued_count_def PIEZO_BUFFER_LEN_def)

lemma ring_add:
  assumes "c < (32::nat)"
  shows "((f + n) mod 32 + 32 - c) mod 32 = ((f + 32 - c) mod 32 + n) mod 32"
proof -
  have "((f + n) mod 32 + 32 - c) mod 32 = ((f + n) mod 32 + (32 - c)) mod 32"
    using assms by simp
  also have "\<dots> = (f + n + (32 - c)) mod 32" by (simp add: mod_add_left_eq)
  also have "\<dots> = ((f + 32 - c) + n) mod 32"
  proof -
    have "f + n + (32 - c) = (f + 32 - c) + n" using assms by arith
    then show ?thesis by (simp only:)
  qed
  also have "\<dots> = ((f + 32 - c) mod 32 + n) mod 32" by (simp add: mod_add_left_eq)
  finally show ?thesis .
qed

lemma recv_front_only:
  assumes "\<not> buffer_cur_pos s < buffer_free_pos s" and nr: "\<not> recv_refuses sz s"
  shows "piezo_recv sz data s =
           then_do (memcpy_samples (sample_buffer s) (buffer_free_pos s) data (sz div 4 * 4))
             (\<lambda>buf. Inr (False, s\<lparr> sample_buffer := buf,
                  buffer_free_pos := (buffer_free_pos s + sz div 4) mod PIEZO_BUFFER_LEN \<rparr>))"
proof -
  from nr have "0 < sz div 4" by (simp add: recv_refuses_def div4_pos)
  moreover from assms(1) have "recv_copy_back data (sz div 4) s = Inr (data, sz div 4, s)"
    by (simp add: recv_copy_back_def)
  ultimately show ?thesis
    unfolding recv_copies [OF nr]
    by (simp add: recv_copy_front_def Let_def then_do_def split: sum.splits)
qed

lemma recv_overrun:
  assumes ok: "cursors_ok s" and nr: "\<not> recv_refuses sz s"
    and eq: "buffer_free_pos s = buffer_cur_pos s"
    and over: "32 < unat (buffer_free_pos s) + unat (sz div 4)"
  shows "piezo_recv sz data s =
           Inl (Out_of_bounds
             (store_samples (sample_buffer s) (unat (buffer_free_pos s))
                (take (32 - unat (buffer_free_pos s))
                   (decode_samples (take (unat (sz div 4 * 4)) data))))
             (zip [unat (buffer_free_pos s) + (32 - unat (buffer_free_pos s))
                     ..< unat (buffer_free_pos s)
                           + length (decode_samples (take (unat (sz div 4 * 4)) data))]
                (drop (32 - unat (buffer_free_pos s))
                   (decode_samples (take (unat (sz div 4 * 4)) data)))))"
proof -
  from nr have "sz div 4 < free_samples s" by (simp add: recv_refuses_def not_le)
  then have "unat (sz div 4) < 32"
    using eq by (simp add: free_samples_def PIEZO_BUFFER_LEN_def word_less_nat_alt)
  then have n4: "unat (sz div 4 * 4) = 4 * unat (sz div 4)" by (simp add: unat_times4)
  from ok have "unat (buffer_free_pos s) < 32" by (simp add: cursors_ok_unat)
  with over n4 have "\<not> unat (sz div 4 * 4) \<le> 4 * (32 - unat (buffer_free_pos s))" by simp
  from memcpy_outside [OF this] show ?thesis
    using eq by (simp add: recv_front_only [OF _ nr])
qed

lemma recv_false_state:
  assumes ok: "cursors_ok s" and r: "piezo_recv sz data s = Inr (False, s')"
  shows "\<exists>buf. s' = s\<lparr> sample_buffer := buf,
                        buffer_free_pos := (buffer_free_pos s + sz div 4) mod 32 \<rparr>"
proof -
  have nr: "\<not> recv_refuses sz s"
  proof
    assume "recv_refuses sz s"
    then have "piezo_recv sz data s = Inr (True, s)" by (rule recv_refused)
    with r show False by simp
  qed
  show ?thesis
  proof (cases "buffer_free_pos s \<noteq> buffer_cur_pos s
                \<or> unat (buffer_free_pos s) + unat (sz div 4) \<le> 32")
    case True
    from recv_in_array [OF ok nr True, of data] r show ?thesis by auto
  next
    case False
    then have "piezo_recv sz data s \<noteq> Inr (False, s')"
      using recv_overrun [OF ok nr, of data] by simp
    with r show ?thesis by simp
  qed
qed

lemma recv_state:
  assumes ok: "cursors_ok s" and r: "piezo_recv sz data s = Inr (b, s')"
  shows "cursors_ok s' \<and> buffer_cur_pos s' = buffer_cur_pos s
         \<and> queued_count s' = queued_count s + (if b then 0 else unat (sz div 4))
         \<and> (b \<longrightarrow> s' = s)
         \<and> (\<not> b \<longrightarrow> unat (buffer_free_pos s')
                        = (unat (buffer_free_pos s) + unat (sz div 4)) mod 32)"
proof (cases b)
  case True
  with r have "s' = s" by (simp add: recv_true_iff)
  with True ok show ?thesis by simp
next
  case False
  from ok have bd: "unat (buffer_free_pos s) < 32" "unat (buffer_cur_pos s) < 32"
    by (simp_all add: cursors_ok_unat)
  from False r have r': "piezo_recv sz data s = Inr (False, s')" by simp
  from recv_false_state [OF ok r'] obtain buf where
    s': "s' = s\<lparr> sample_buffer := buf,
                  buffer_free_pos := (buffer_free_pos s + sz div 4) mod 32 \<rparr>" ..
  have nr: "\<not> recv_refuses sz s"
    using r False by (auto simp add: recv_refused)
  then have "sz div 4 < free_samples s" by (simp add: recv_refuses_def not_le)
  then have "unat (sz div 4) < 32 - queued_count s"
    by (simp add: word_less_nat_alt unat_free_samples [OF ok])
  then have small: "queued_count s + unat (sz div 4) < 32" and n32: "unat (sz div 4) < 32"
    by simp_all
  have fp: "unat (buffer_free_pos s') = (unat (buffer_free_pos s) + unat (sz div 4)) mod 32"
    using bd n32 by (simp add: s' unat_add_mod32)
  then have ok': "cursors_ok s'" using ok by (simp add: cursors_ok_unat s')
  have "queued_count s'
          = ((unat (buffer_free_pos s) + unat (sz div 4)) mod 32 + 32 - unat (buffer_cur_pos s)) mod 32"
    using fp by (simp add: queued_count_def PIEZO_BUFFER_LEN_def s')
  also have "\<dots> = (queued_count s + unat (sz div 4)) mod 32"
    by (simp add: ring_add [OF bd(2)] queued_count_def PIEZO_BUFFER_LEN_def)
  finally have "queued_count s' = queued_count s + unat (sz div 4)" using small by simp
  with ok' fp False show ?thesis by (simp add: s')
qed

lemma queued_count_zero_iff:
  assumes "cursors_ok s"
  shows "queued_count s = 0 \<longleftrightarrow> buffer_free_pos s = buffer_cur_pos s"
proof -
  from assms have b: "unat (buffer_free_pos s) < 32" "unat (buffer_cur_pos s) < 32"
    by (simp_all add: cursors_ok_unat)
  have "queued_count s = 0 \<longleftrightarrow> unat (buffer_free_pos s) = unat (buffer_cur_pos s)"
    using b by (auto simp add: queued_count_def PIEZO_BUFFER_LEN_def mod_if)
  then show ?thesis by (simp add: word_unat_eq_iff)
qed

text \<open>What a tick does to the cursors.\<close>

lemma tick_idle_cursors:
  "tick_sample s = None \<Longrightarrow>
     buffer_free_pos (piezo_tick s) = buffer_free_pos s \<and> buffer_cur_pos (piezo_tick s) = buffer_cur_pos s"
  by (auto simp add: tick_sample_def piezo_tick_def Let_def split: if_splits)

lemma cfg_cursors:
  "buffer_free_pos (configure_piezo_timer ps s) = buffer_free_pos s
   \<and> buffer_cur_pos (configure_piezo_timer ps s) = buffer_cur_pos s
   \<and> sample_buffer (configure_piezo_timer ps s) = sample_buffer s
   \<and> elapsed_piezo_time (configure_piezo_timer ps s) = elapsed_piezo_time s
   \<and> piezo_duration (configure_piezo_timer ps s) = piezo_duration s"
  by (simp add: configure_piezo_timer_def Let_def)

lemma tick_take_cursors:
  "tick_sample s = Some ps \<Longrightarrow>
     buffer_free_pos (piezo_tick s) = buffer_free_pos s
     \<and> buffer_cur_pos (piezo_tick s) = (buffer_cur_pos s + 1) mod 32
     \<and> buffer_free_pos s \<noteq> buffer_cur_pos s"
  by (auto simp add: tick_sample_def piezo_tick_def Let_def cfg_cursors PIEZO_BUFFER_LEN_def split: if_splits)

lemma tick_buffer:
  "sample_buffer (piezo_tick s) = sample_buffer s"
  by (auto simp add: piezo_tick_def Let_def cfg_cursors)

lemma cursors_ok_tick:
  assumes "cursors_ok s"
  shows "cursors_ok (piezo_tick s)"
proof (cases "tick_sample s")
  case None
  then show ?thesis using assms by (simp add: cursors_ok_def tick_idle_cursors)
next
  case (Some ps)
  have "unat ((buffer_cur_pos s + 1) mod 32) < 32" by (simp add: unat_mod)
  then show ?thesis using assms tick_take_cursors [OF Some]
    by (simp add: cursors_ok_unat)
qed

lemma ring_take:
  assumes "c < (32::nat)" "f < 32" "f \<noteq> c"
  shows "(f + 32 - (c + 1) mod 32) mod 32 = (f + 32 - c) mod 32 - 1"
  using assms by (auto simp add: mod_if)

lemma queued_count_tick:
  assumes ok: "cursors_ok s" and t: "tick_sample s = Some ps"
  shows "queued_count (piezo_tick s) = queued_count s - 1 \<and> 0 < queued_count s"
proof -
  from ok have b: "unat (buffer_free_pos s) < 32" "unat (buffer_cur_pos s) < 32"
    by (simp_all add: cursors_ok_unat)
  from tick_take_cursors [OF t] have ne: "unat (buffer_free_pos s) \<noteq> unat (buffer_cur_pos s)"
    by (simp add: word_unat_eq_iff)
  have c1: "unat ((buffer_cur_pos s + 1) mod 32) = (unat (buffer_cur_pos s) + 1) mod 32"
    using b unat_add_mod32 [of "buffer_cur_pos s" 1] by simp
  have "queued_count (piezo_tick s) = queued_count s - 1"
    using tick_take_cursors [OF t] ring_take [OF b(2) b(1) ne]
    by (simp add: queued_count_def PIEZO_BUFFER_LEN_def c1)
  moreover have "0 < queued_count s"
    using queued_count_zero_iff [OF ok] tick_take_cursors [OF t] by auto
  ultimately show ?thesis by simp
qed

lemma returned_true_iff: "returned_true (piezo_recv sz data s) \<longleftrightarrow> recv_refuses sz s"
proof (cases "recv_refuses sz s")
  case True
  then show ?thesis by (simp add: recv_refused returned_true_def)
next
  case False
  have "\<not> returned_true (piezo_recv sz data s)"
    unfolding recv_copies [OF False]
    by (auto simp add: returned_true_def then_do_def split: sum.splits prod.splits)
  with False show ?thesis by simp
qed

section \<open>Occupancy\<close>

lemma run_invariant:
  "cursors_ok s \<Longrightarrow> k = int (queued_count s) \<Longrightarrow> run evs s = Inr s' \<Longrightarrow>
     cursors_ok s' \<and> occupancy evs s k = int (queued_count s')"
proof (induction evs arbitrary: s k)
  case Nil
  then show ?case by simp
next
  case (Cons e es)
  show ?case
  proof (cases e)
    case (Recv sz data)
    from Cons.prems(3) Recv obtain b s1 where
      r: "piezo_recv sz data s = Inr (b, s1)" and rest: "run es s1 = Inr s'"
      by (auto simp add: then_do_def split: sum.splits prod.splits)
    note st = recv_state [OF Cons.prems(1) r]
    have k1: "(if b then k else k + uint (sz div 4)) = int (queued_count s1)"
      using st Cons.prems(2) by auto
    from Cons.IH [OF _ k1 rest] st show ?thesis using Recv r by simp
  next
    case Tick
    from Cons.prems(3) Tick have rest: "run es (piezo_tick s) = Inr s'" by simp
    have ok': "cursors_ok (piezo_tick s)" using Cons.prems(1) by (rule cursors_ok_tick)
    have "(if tick_sample s = None then k else k - 1) = int (queued_count (piezo_tick s))"
    proof (cases "tick_sample s")
      case None
      then show ?thesis using Cons.prems(2) tick_idle_cursors [OF None]
        by (simp add: queued_count_def)
    next
      case (Some ps)
      then show ?thesis using Cons.prems queued_count_tick [OF Cons.prems(1) Some]
        by simp
    qed
    from Cons.IH [OF ok' this rest] show ?thesis using Tick by simp
  qed
qed

lemma init_ok: "cursors_ok piezo_init_state \<and> queued_count piezo_init_state = 0"
  by (simp add: cursors_ok_def piezo_init_state_def queued_count_def PIEZO_BUFFER_LEN_def)

text \<open>
  As long as no copy has run past the end of the array, the count of samples taken in
  and not yet taken out is between 0 and 31, and the cursors are equal exactly when it
  is 0.
\<close>

lemma occupancy_while_inside_array:
  assumes "run evs piezo_init_state = Inr s"
  shows "0 \<le> occupancy evs piezo_init_state 0
         \<and> occupancy evs piezo_init_state 0 \<le> 31
         \<and> (buffer_free_pos s = buffer_cur_pos s \<longleftrightarrow> occupancy evs piezo_init_state 0 = 0)"
proof -
  have inv: "cursors_ok s \<and> occupancy evs piezo_init_state 0 = int (queued_count s)"
    using init_ok assms by (intro run_invariant) simp_all
  then have "occupancy evs piezo_init_state 0 < 32"
    using queued_count_less [of s] by simp
  then show ?thesis using inv queued_count_zero_iff [of s] by auto
qed

section \<open>Free space\<close>

text \<open>
  C3, as stated, fails: on the empty queue \<open>free_samples\<close> returns \<open>N = 32\<close>, not
  \<open>N - 1 = 31\<close>.
\<close>

theorem free_samples_empty_is_32:
  "buffer_free_pos piezo_init_state = buffer_cur_pos piezo_init_state
   \<and> free_samples piezo_init_state = 32 \<and> free_samples piezo_init_state \<noteq> 31"
  by (simp add: free_samples_def piezo_init_state_def PIEZO_BUFFER_LEN_def)

text \<open>
  C3, amended. For cursors inside the array, \<open>free_samples\<close> returns \<open>N\<close> minus the
  number of queued samples: the free slots, the reserved one included, and \<open>N = 32\<close>
  on an empty queue. The reserved slot is left out by the comparison in
  \<open>piezo_recv\<close>: a call with a burst of well-formed length does not come back with
  \<open>true\<close> exactly when the sample count is at most \<open>free_samples() - 1\<close>.
\<close>

theorem free_samples_counts_reserved_slot:
  assumes "cursors_ok s"
  shows "unat (free_samples s) = 32 - queued_count s
         \<and> queued_count s \<le> 31
         \<and> (buffer_free_pos s = buffer_cur_pos s \<longrightarrow> free_samples s = 32)
         \<and> (sz \<noteq> 0 \<and> sz AND 3 = 0 \<longrightarrow>
              (\<not> returned_true (piezo_recv sz data s))
                = (unat (sz div 4) \<le> unat (free_samples s) - 1))"
proof -
  have a: "unat (free_samples s) = 32 - queued_count s" using assms by (rule unat_free_samples)
  have b: "queued_count s \<le> 31" using queued_count_less [of s] by simp
  have c: "buffer_free_pos s = buffer_cur_pos s \<longrightarrow> free_samples s = 32"
    by (simp add: free_samples_def PIEZO_BUFFER_LEN_def)
  have d: "sz \<noteq> 0 \<and> sz AND 3 = 0 \<longrightarrow>
              (\<not> returned_true (piezo_recv sz data s))
                = (unat (sz div 4) \<le> unat (free_samples s) - 1)"
    using a b by (auto simp add: returned_true_iff recv_refuses_def word_le_nat_alt)
  from a b c d show ?thesis by blast
qed

theorem free_samples_counts_reserved_slot_witness:
  "cursors_ok piezo_init_state
   \<and> buffer_free_pos piezo_init_state = buffer_cur_pos piezo_init_state
   \<and> free_samples piezo_init_state = 32
   \<and> unat (free_samples piezo_init_state) = 32 - queued_count piezo_init_state
   \<and> (124 :: 32 word) \<noteq> 0 \<and> (124 :: 32 word) AND 3 = 0
   \<and> \<not> returned_true (piezo_recv 124 (replicate 124 0) piezo_init_state)
   \<and> returned_true (piezo_recv 128 (replicate 128 0) piezo_init_state)"
proof -
  have ok: "cursors_ok piezo_init_state" by (simp add: init_ok)
  have v1: "(124 :: 32 word) \<noteq> 0 \<and> (124 :: 32 word) AND 3 = 0" by simp
  have v2: "(128 :: 32 word) \<noteq> 0 \<and> (128 :: 32 word) AND 3 = 0" by simp
  have fs: "free_samples piezo_init_state = 32"
    by (simp add: free_samples_def piezo_init_state_def PIEZO_BUFFER_LEN_def)
  have eq: "buffer_free_pos piezo_init_state = buffer_cur_pos piezo_init_state"
    by (simp add: piezo_init_state_def)
  note r1 = free_samples_counts_reserved_slot [OF ok, of 124 "replicate 124 0"]
  note r2 = free_samples_counts_reserved_slot [OF ok, of 128 "replicate 128 0"]
  from r1 v1 fs
  have a: "\<not> returned_true (piezo_recv 124 (replicate 124 0) piezo_init_state)"
    by simp
  from r2 v2 fs
  have b: "returned_true (piezo_recv 128 (replicate 128 0) piezo_init_state)"
    by simp
  from r1 have c: "unat (free_samples piezo_init_state) = 32 - queued_count piezo_init_state"
    by simp
  from ok eq fs a b c show ?thesis by simp
qed

section \<open>Rejected bursts\<close>

text \<open>
  C4. A burst whose sample count \<open>size / 4\<close> is greater than or equal to
  \<open>free_samples()\<close> is rejected whole: \<open>piezo_recv\<close> returns \<open>true\<close> and the state,
  cursors and buffer contents included, is the state before the call.
\<close>

theorem recv_rejects_burst_that_does_not_fit:
  "free_samples s \<le> sz div 4 \<Longrightarrow> piezo_recv sz data s = Inr (True, s)"
  by (simp add: piezo_recv_def Let_def)

theorem recv_rejects_burst_that_does_not_fit_witness:
  "free_samples piezo_init_state \<le> 128 div 4
   \<and> piezo_recv 128 (replicate 128 7) piezo_init_state = Inr (True, piezo_init_state)"
proof -
  have h: "free_samples piezo_init_state \<le> 128 div 4"
    by (simp add: free_samples_def piezo_init_state_def PIEZO_BUFFER_LEN_def)
  from h recv_rejects_burst_that_does_not_fit [OF h, of "replicate 128 7"] show ?thesis
    by simp
qed

text \<open>
  C6, as stated, fails: a zero-length call returns the same value as a call with a
  malformed length, and not the value an accepted burst returns.
\<close>

theorem recv_zero_length_not_distinguished:
  "returned_true (piezo_recv 0 [] piezo_init_state)
     = returned_true (piezo_recv 3 [1, 2, 3] piezo_init_state)
   \<and> returned_true (piezo_recv 0 [] piezo_init_state)
     \<noteq> returned_true (piezo_recv 4 [1, 2, 3, 4] piezo_init_state)
   \<and> \<not> isl (piezo_recv 0 [] piezo_init_state)
   \<and> \<not> isl (piezo_recv 3 [1, 2, 3] piezo_init_state)
   \<and> \<not> isl (piezo_recv 4 [1, 2, 3, 4] piezo_init_state)"
proof -
  have fs: "free_samples piezo_init_state = 32"
    by (simp add: free_samples_def piezo_init_state_def PIEZO_BUFFER_LEN_def)
  have nr: "\<not> recv_refuses 4 piezo_init_state"
    by (simp add: recv_refuses_def fs word_le_nat_alt)
  have fit: "buffer_free_pos piezo_init_state \<noteq> buffer_cur_pos piezo_init_state
             \<or> unat (buffer_free_pos piezo_init_state) + unat ((4 :: 32 word) div 4) \<le> 32"
    by (simp add: piezo_init_state_def)
  from recv_in_array [OF conjunct1 [OF init_ok] nr fit, of "[1, 2, 3, 4]"]
  have a: "\<not> isl (piezo_recv 4 [1, 2, 3, 4] piezo_init_state)" by auto
  have b: "piezo_recv 0 [] piezo_init_state = Inr (True, piezo_init_state)"
    "piezo_recv 3 [1, 2, 3] piezo_init_state = Inr (True, piezo_init_state)"
    by (simp_all add: recv_refused recv_refuses_def)
  have c: "\<not> returned_true (piezo_recv 4 [1, 2, 3, 4] piezo_init_state)"
    using nr by (simp add: returned_true_iff)
  from a c show ?thesis by (simp add: b returned_true_def)
qed

text \<open>
  C6, amended. For every byte length that is not a positive multiple of 4, zero
  included, \<open>piezo_recv\<close> returns \<open>true\<close> and leaves the state as it was. \<open>true\<close> is
  also what a burst that does not fit gets, so a zero-length call cannot be told from
  a rejection by its result.
\<close>

theorem recv_bad_length_no_effect:
  "sz = 0 \<or> sz AND 3 \<noteq> 0 \<Longrightarrow> piezo_recv sz data s = Inr (True, s)"
  by (auto simp add: piezo_recv_def)

theorem recv_bad_length_no_effect_witness:
  "((3 :: 32 word) = 0 \<or> (3 :: 32 word) AND 3 \<noteq> 0)
   \<and> ((5 :: 32 word) = 0 \<or> (5 :: 32 word) AND 3 \<noteq> 0)
   \<and> piezo_recv 3 [1, 2, 3] piezo_init_state = Inr (True, piezo_init_state)
   \<and> piezo_recv 5 [1, 2, 3, 4, 5] piezo_init_state = Inr (True, piezo_init_state)
   \<and> piezo_recv 0 [] piezo_init_state = Inr (True, piezo_init_state)"
proof -
  have h3: "(3 :: 32 word) = 0 \<or> (3 :: 32 word) AND 3 \<noteq> 0" by simp
  have h5: "(5 :: 32 word) = 0 \<or> (5 :: 32 word) AND 3 \<noteq> 0" by simp
  have h0: "(0 :: 32 word) = 0 \<or> (0 :: 32 word) AND 3 \<noteq> 0" by simp
  from h3 h5
    recv_bad_length_no_effect [OF h3, of "[1, 2, 3]" piezo_init_state]
    recv_bad_length_no_effect [OF h5, of "[1, 2, 3, 4, 5]" piezo_init_state]
    recv_bad_length_no_effect [OF h0, of "[]" piezo_init_state]
  show ?thesis by simp
qed

section \<open>Frequency to timer period\<close>

lemma unat_min_word: "unat (min a b :: 'a::len word) = min (unat a) (unat b)"
  by (simp add: min_def word_le_nat_alt)

lemma unat_ucast_16_32: "unat (ucast (w :: 16 word) :: 32 word) = unat w"
proof -
  have "unat w < 2 ^ 16" using unsigned_less [of w] by simp
  then have "unat w < 2 ^ 32" by simp
  then show ?thesis by (simp add: unsigned_ucast_eq take_bit_nat_eq_self)
qed

lemma cfg_period:
  "freq ps \<noteq> 0 \<Longrightarrow>
     unat (tim3_period (configure_piezo_timer ps s)) = (1000000 div min (unat (freq ps)) 10000) div 2"
  by (simp add: configure_piezo_timer_def Let_def unat_div unat_min_word unat_ucast_16_32 min.commute)

lemma cfg_clamp: "10000 \<le> freq ps \<Longrightarrow> tim3_period (configure_piezo_timer ps s) = 50"
proof -
  assume h: "10000 \<le> freq ps"
  then have nz: "freq ps \<noteq> 0" by auto
  from h have "10000 \<le> unat (freq ps)" by (simp add: word_le_nat_alt)
  then have "unat (tim3_period (configure_piezo_timer ps s)) = 50"
    using cfg_period [OF nz, of s] by (simp add: min_def)
  then show ?thesis by (simp add: word_unat_eq_iff)
qed

text \<open>
  C9. For every nonzero frequency \<open>f\<close>, \<open>configure_piezo_timer\<close> programs the period
  \<open>(1000000 / min(f, 10000)) / 2\<close> in integer arithmetic and enables the periodic
  interrupt, so every \<open>f \<ge> 10000\<close> gives the period of exactly 10000 Hz; for \<open>f = 0\<close>
  it disables the periodic interrupt and leaves the period alone.
\<close>

theorem configure_piezo_timer_period:
  "(freq ps \<noteq> 0 \<longrightarrow>
      unat (tim3_period (configure_piezo_timer ps s)) = (1000000 div min (unat (freq ps)) 10000) div 2
      \<and> tim3_irq_enabled (configure_piezo_timer ps s)
      \<and> (10000 \<le> freq ps \<longrightarrow>
           tim3_period (configure_piezo_timer ps s)
             = tim3_period (configure_piezo_timer \<lparr> freq = 10000, duration = duration ps \<rparr> s)))
   \<and> (freq ps = 0 \<longrightarrow>
        \<not> tim3_irq_enabled (configure_piezo_timer ps s)
        \<and> tim3_period (configure_piezo_timer ps s) = tim3_period s)"
proof (intro conjI impI)
  assume "freq ps \<noteq> 0"
  then show "unat (tim3_period (configure_piezo_timer ps s)) = (1000000 div min (unat (freq ps)) 10000) div 2"
    by (rule cfg_period)
next
  assume "freq ps \<noteq> 0"
  then show "tim3_irq_enabled (configure_piezo_timer ps s)"
    by (simp add: configure_piezo_timer_def Let_def)
next
  assume "10000 \<le> freq ps"
  then show "tim3_period (configure_piezo_timer ps s)
             = tim3_period (configure_piezo_timer \<lparr> freq = 10000, duration = duration ps \<rparr> s)"
    by (simp add: cfg_clamp)
next
  assume "freq ps = 0"
  then show "\<not> tim3_irq_enabled (configure_piezo_timer ps s)"
    by (simp add: configure_piezo_timer_def)
next
  assume "freq ps = 0"
  then show "tim3_period (configure_piezo_timer ps s) = tim3_period s"
    by (simp add: configure_piezo_timer_def)
qed

theorem configure_piezo_timer_period_witness:
  "tim3_period (configure_piezo_timer \<lparr> freq = 50000, duration = 7 \<rparr> piezo_init_state)
     = tim3_period (configure_piezo_timer \<lparr> freq = 10000, duration = 7 \<rparr> piezo_init_state)
   \<and> unat (tim3_period (configure_piezo_timer \<lparr> freq = 50000, duration = 7 \<rparr> piezo_init_state)) = 50
   \<and> unat (tim3_period (configure_piezo_timer \<lparr> freq = 440, duration = 100 \<rparr> piezo_init_state)) = 1136
   \<and> tim3_irq_enabled (configure_piezo_timer \<lparr> freq = 440, duration = 100 \<rparr> piezo_init_state)
   \<and> \<not> tim3_irq_enabled (configure_piezo_timer \<lparr> freq = 0, duration = 15 \<rparr>
          (configure_piezo_timer \<lparr> freq = 440, duration = 100 \<rparr> piezo_init_state))"
proof -
  note r1 = configure_piezo_timer_period [of "\<lparr> freq = 50000, duration = 7 \<rparr>" piezo_init_state]
  note r2 = configure_piezo_timer_period [of "\<lparr> freq = 440, duration = 100 \<rparr>" piezo_init_state]
  note r3 = configure_piezo_timer_period [of "\<lparr> freq = 0, duration = 15 \<rparr>"
       "configure_piezo_timer \<lparr> freq = 440, duration = 100 \<rparr> piezo_init_state"]
  have nz: "freq \<lparr> freq = 50000, duration = 7 \<rparr> \<noteq> 0" by simp
  have ge: "10000 \<le> freq \<lparr> freq = 50000, duration = 7 \<rparr>" by simp
  have dd: "duration \<lparr> freq = 50000, duration = 7 \<rparr> = 7" by simp
  have nn: "1000000 div min (unat (freq \<lparr> freq = 50000, duration = 7 \<rparr>)) 10000 div 2 = 50" by simp
  from r1 nz ge have r1'':
    "unat (tim3_period (configure_piezo_timer \<lparr> freq = 50000, duration = 7 \<rparr> piezo_init_state))
        = 1000000 div min (unat (freq \<lparr> freq = 50000, duration = 7 \<rparr>)) 10000 div 2
     \<and> tim3_period (configure_piezo_timer \<lparr> freq = 50000, duration = 7 \<rparr> piezo_init_state)
       = tim3_period (configure_piezo_timer
            \<lparr> freq = 10000, duration = duration \<lparr> freq = 50000, duration = 7 \<rparr> \<rparr> piezo_init_state)"
    by blast
  note r1' = r1'' [unfolded dd nn]
  from r1' have a:
    "tim3_period (configure_piezo_timer \<lparr> freq = 50000, duration = 7 \<rparr> piezo_init_state)
       = tim3_period (configure_piezo_timer \<lparr> freq = 10000, duration = 7 \<rparr> piezo_init_state)"
    by (rule conjunct2)
  from r1' have b:
    "unat (tim3_period (configure_piezo_timer \<lparr> freq = 50000, duration = 7 \<rparr> piezo_init_state)) = 50"
    by (rule conjunct1)
  from r2 have c:
    "unat (tim3_period (configure_piezo_timer \<lparr> freq = 440, duration = 100 \<rparr> piezo_init_state)) = 1136
     \<and> tim3_irq_enabled (configure_piezo_timer \<lparr> freq = 440, duration = 100 \<rparr> piezo_init_state)"
    by simp
  from r3 have d:
    "\<not> tim3_irq_enabled (configure_piezo_timer \<lparr> freq = 0, duration = 15 \<rparr>
          (configure_piezo_timer \<lparr> freq = 440, duration = 100 \<rparr> piezo_init_state))"
    by simp
  from a b c d show ?thesis by blast
qed

section \<open>Histories\<close>

lemma run_append: "run (xs @ ys) s = then_do (run xs s) (run ys)"
proof (induction xs arbitrary: s)
  case Nil
  then show ?case by simp
next
  case (Cons e es)
  then show ?case by (cases "step e s") simp_all
qed

lemma played_append:
  "played (xs @ ys) s =
     played xs s @ (case run xs s of Inl e \<Rightarrow> [] | Inr s' \<Rightarrow> played ys s')"
proof (induction xs arbitrary: s)
  case Nil
  then show ?case by simp
next
  case (Cons e es)
  then show ?case by (cases e) (auto split: sum.splits prod.splits)
qed

lemma enqueued_append:
  "enqueued (xs @ ys) s =
     enqueued xs s @ (case run xs s of Inl e \<Rightarrow> [] | Inr s' \<Rightarrow> enqueued ys s')"
proof (induction xs arbitrary: s)
  case Nil
  then show ?case by simp
next
  case (Cons e es)
  then show ?case by (cases e) (auto split: sum.splits prod.splits)
qed

text \<open>A tick that takes a sample, and a tick while a sample sounds.\<close>

lemma tick_sounding:
  "elapsed_piezo_time s < piezo_duration s \<Longrightarrow>
     piezo_tick s = s\<lparr> elapsed_piezo_time := elapsed_piezo_time s + 1 \<rparr>"
  by (simp add: piezo_tick_def)

lemma tick_idle:
  assumes "\<not> elapsed_piezo_time s < piezo_duration s" and "buffer_free_pos s = buffer_cur_pos s"
  shows "piezo_tick s = s\<lparr> tim3_irq_enabled := False, elapsed_piezo_time := 0, piezo_duration := 0 \<rparr>"
  using assms by (simp add: piezo_tick_def Let_def)

lemma tick_take:
  assumes "tick_sample s = Some ps"
  shows "piezo_tick s =
           (configure_piezo_timer ps s)
             \<lparr> piezo_duration := ucast (duration ps), elapsed_piezo_time := 0,
               buffer_cur_pos := (buffer_cur_pos s + 1) mod PIEZO_BUFFER_LEN \<rparr>"
proof -
  from assms have a: "\<not> elapsed_piezo_time s < piezo_duration s"
    "buffer_free_pos s \<noteq> buffer_cur_pos s" "sample_buffer s (unat (buffer_cur_pos s)) = ps"
    by (auto simp add: tick_sample_def split: if_splits)
  show ?thesis
  proof (cases "freq ps = 0")
    case True
    then show ?thesis using a
      by (simp add: piezo_tick_def Let_def configure_piezo_timer_def)
  next
    case False
    then show ?thesis using a
      by (simp add: piezo_tick_def Let_def configure_piezo_timer_def)
  qed
qed

lemma ticks_sounding:
  "unat (elapsed_piezo_time s) + n \<le> unat (piezo_duration s) \<Longrightarrow>
     (piezo_tick ^^ n) s = s\<lparr> elapsed_piezo_time := elapsed_piezo_time s + of_nat n \<rparr>"
proof (induction n)
  case 0
  then show ?case by simp
next
  case (Suc n)
  then have ih: "(piezo_tick ^^ n) s = s\<lparr> elapsed_piezo_time := elapsed_piezo_time s + of_nat n \<rparr>"
    by simp
  have d: "unat (piezo_duration s) < 2 ^ 32" using unsigned_less [of "piezo_duration s"] by simp
  have "unat (elapsed_piezo_time s) + n < 2 ^ 32" using Suc.prems d by simp
  then have "unat (elapsed_piezo_time s + of_nat n) = unat (elapsed_piezo_time s) + n"
    by (simp add: unat_word_ariths unat_of_nat take_bit_nat_eq_self)
  then have "elapsed_piezo_time s + of_nat n < piezo_duration s"
    using Suc.prems by (simp add: word_less_nat_alt)
  then show ?case by (simp add: ih tick_sounding add.assoc)
qed

text \<open>A burst handed to the empty queue of the initial state.\<close>

lemma recv_into_init:
  assumes "sz \<noteq> 0" and "sz AND 3 = 0" and "sz div 4 < 32"
  shows "piezo_recv sz data piezo_init_state =
     Inr (False, piezo_init_state\<lparr> sample_buffer :=
            store_samples (sample_buffer piezo_init_state) 0
              (decode_samples (take (unat (sz div 4 * 4)) data)),
          buffer_free_pos := (sz div 4) mod 32 \<rparr>)"
proof -
  have fs: "free_samples piezo_init_state = 32"
    by (simp add: free_samples_def piezo_init_state_def PIEZO_BUFFER_LEN_def)
  have nr: "\<not> recv_refuses sz piezo_init_state"
    using assms by (simp add: recv_refuses_def fs not_le)
  have nf: "\<not> buffer_cur_pos piezo_init_state < buffer_free_pos piezo_init_state"
    by (simp add: piezo_init_state_def)
  have f0: "buffer_free_pos piezo_init_state = 0" by (simp add: piezo_init_state_def)
  from assms(3) have "unat (sz div 4) < 32" by (simp add: word_less_nat_alt)
  then have "unat (sz div 4 * 4) \<le> 4 * (32 - unat (buffer_free_pos piezo_init_state))"
    using unat_times4 [of "sz div 4"] by (simp add: f0)
  from memcpy_inside [OF this] show ?thesis
    unfolding recv_front_only [OF nf nr]
    by (simp add: PIEZO_BUFFER_LEN_def f0)
qed

section \<open>The gap between notes\<close>

text \<open>
  C1 at the scenario of the specification. One sample \<open>{440 Hz, 100 ms}\<close> is queued
  (the copy stays inside the array) and a tick starts it. After 100 further ticks
  \<open>elapsed = 100\<close>; the 101st tick already resets \<open>elapsed\<close> and the duration to 0
  and leaves the scheduler idle, where the claim has five gap ticks first and the
  reset on the 106th. With a second sample
  \<open>{880 Hz, 50 ms}\<close> queued behind the first, the same 101st tick takes it out of the
  queue and starts it with the interrupt enabled: the branch for the 5 ms silence at
  lines 154-157 falls through to the dequeue and never lets \<open>elapsed\<close> grow past the
  duration.
\<close>

theorem tick_starts_next_note_without_gap:
  "\<not> isl (piezo_recv 4 [0xB8, 0x01, 0x64, 0x00] piezo_init_state)
   \<and> \<not> isl (piezo_recv 8 [0xB8, 0x01, 0x64, 0x00, 0x70, 0x03, 0x32, 0x00] piezo_init_state)
   \<and> (let s1 = piezo_tick (snd (projr (piezo_recv 4 [0xB8, 0x01, 0x64, 0x00]
                                          piezo_init_state)));
        s100 = (piezo_tick ^^ 100) s1;
        s101 = piezo_tick s100
    in piezo_duration s1 = 100 \<and> elapsed_piezo_time s1 = 0 \<and> tim3_irq_enabled s1
       \<and> piezo_duration s100 = 100 \<and> elapsed_piezo_time s100 = 100 \<and> tim3_irq_enabled s100
       \<and> piezo_duration s101 = 0 \<and> elapsed_piezo_time s101 = 0 \<and> \<not> tim3_irq_enabled s101)
   \<and> (let t1 = piezo_tick (snd (projr (piezo_recv 8
                  [0xB8, 0x01, 0x64, 0x00, 0x70, 0x03, 0x32, 0x00] piezo_init_state)));
            t100 = (piezo_tick ^^ 100) t1;
            t101 = piezo_tick t100
        in piezo_duration t100 = 100 \<and> elapsed_piezo_time t100 = 100
           \<and> tick_sample t100 = Some \<lparr> freq = 880, duration = 50 \<rparr>
           \<and> piezo_duration t101 = 50 \<and> elapsed_piezo_time t101 = 0 \<and> tim3_irq_enabled t101
           \<and> buffer_cur_pos t101 = 2)"
proof -
  define s0 where "s0 = snd (projr (piezo_recv 4 [0xB8, 0x01, 0x64, 0x00] piezo_init_state))"
  have n1: "\<not> isl (piezo_recv 4 [0xB8, 0x01, 0x64, 0x00] piezo_init_state)"
    by (simp add: recv_into_init)
  have n2: "\<not> isl (piezo_recv 8 [0xB8, 0x01, 0x64, 0x00, 0x70, 0x03, 0x32, 0x00]
                     piezo_init_state)"
    by (simp add: recv_into_init)
  define s1 where "s1 = piezo_tick s0"
  define s100 where "s100 = (piezo_tick ^^ 100) s1"
  have s0: "s0 = piezo_init_state\<lparr> sample_buffer :=
            store_samples (sample_buffer piezo_init_state) 0 [\<lparr> freq = 440, duration = 100 \<rparr>],
          buffer_free_pos := 1 \<rparr>"
    by (simp add: s0_def recv_into_init le16_def)
  have ts0: "tick_sample s0 = Some \<lparr> freq = 440, duration = 100 \<rparr>"
    by (simp add: s0 tick_sample_def piezo_init_state_def store_samples_def)
  have s1: "s1 = s0\<lparr> tim3_sr := 0, tim3_period := 1136, tim3_counter := 0,
                    tim3_irq_enabled := True, piezo_duration := 100, elapsed_piezo_time := 0,
                    buffer_cur_pos := 1 \<rparr>"
    unfolding s1_def tick_take [OF ts0]
    by (simp add: configure_piezo_timer_def Let_def PIEZO_BUFFER_LEN_def s0 piezo_init_state_def)
  have "unat (elapsed_piezo_time s1) + 100 \<le> unat (piezo_duration s1)" by (simp add: s1)
  from ticks_sounding [OF this]
  have s100: "s100 = s1\<lparr> elapsed_piezo_time := 100 \<rparr>" by (simp add: s100_def s1)
  have s101: "piezo_tick s100 =
                s100\<lparr> tim3_irq_enabled := False, elapsed_piezo_time := 0, piezo_duration := 0 \<rparr>"
    by (rule tick_idle) (simp_all add: s100 s1 s0 piezo_init_state_def)
  have A: "piezo_duration s1 = 100 \<and> elapsed_piezo_time s1 = 0 \<and> tim3_irq_enabled s1
       \<and> piezo_duration s100 = 100 \<and> elapsed_piezo_time s100 = 100 \<and> tim3_irq_enabled s100
       \<and> piezo_duration (piezo_tick s100) = 0 \<and> elapsed_piezo_time (piezo_tick s100) = 0
       \<and> \<not> tim3_irq_enabled (piezo_tick s100)"
    unfolding s101 by (simp add: s100 s1)
  define t0 where "t0 = snd (projr (piezo_recv 8 [0xB8, 0x01, 0x64, 0x00, 0x70, 0x03, 0x32, 0x00]
                                 piezo_init_state))"
  define t1 where "t1 = piezo_tick t0"
  define t100 where "t100 = (piezo_tick ^^ 100) t1"
  have t0: "t0 = piezo_init_state\<lparr> sample_buffer :=
            store_samples (sample_buffer piezo_init_state) 0
              [\<lparr> freq = 440, duration = 100 \<rparr>, \<lparr> freq = 880, duration = 50 \<rparr>],
          buffer_free_pos := 2 \<rparr>"
    by (simp add: t0_def recv_into_init le16_def)
  have tt0: "tick_sample t0 = Some \<lparr> freq = 440, duration = 100 \<rparr>"
    by (simp add: t0 tick_sample_def piezo_init_state_def store_samples_def)
  have t1: "t1 = t0\<lparr> tim3_sr := 0, tim3_period := 1136, tim3_counter := 0,
                    tim3_irq_enabled := True, piezo_duration := 100, elapsed_piezo_time := 0,
                    buffer_cur_pos := 1 \<rparr>"
    unfolding t1_def tick_take [OF tt0]
    by (simp add: configure_piezo_timer_def Let_def PIEZO_BUFFER_LEN_def t0 piezo_init_state_def)
  have "unat (elapsed_piezo_time t1) + 100 \<le> unat (piezo_duration t1)" by (simp add: t1)
  from ticks_sounding [OF this]
  have t100: "t100 = t1\<lparr> elapsed_piezo_time := 100 \<rparr>" by (simp add: t100_def t1)
  have tt100: "tick_sample t100 = Some \<lparr> freq = 880, duration = 50 \<rparr>"
    by (simp add: t100 t1 t0 tick_sample_def piezo_init_state_def store_samples_def)
  have B0: "piezo_duration t100 = 100 \<and> elapsed_piezo_time t100 = 100"
    by (simp add: t100 t1)
  have B1: "piezo_duration (piezo_tick t100) = 50 \<and> elapsed_piezo_time (piezo_tick t100) = 0
           \<and> tim3_irq_enabled (piezo_tick t100)
           \<and> buffer_cur_pos (piezo_tick t100) = 2"
    unfolding tick_take [OF tt100]
    by (simp add: t100 t1 configure_piezo_timer_def Let_def PIEZO_BUFFER_LEN_def)
  from B0 tt100 B1
  have B: "piezo_duration t100 = 100 \<and> elapsed_piezo_time t100 = 100
           \<and> tick_sample t100 = Some \<lparr> freq = 880, duration = 50 \<rparr>
           \<and> piezo_duration (piezo_tick t100) = 50 \<and> elapsed_piezo_time (piezo_tick t100) = 0
           \<and> tim3_irq_enabled (piezo_tick t100)
           \<and> buffer_cur_pos (piezo_tick t100) = 2"
    by blast
  from n1 n2 A B show ?thesis
    unfolding Let_def s0_def s1_def s100_def t0_def t1_def t100_def by blast
qed

section \<open>Writing at the end of the array\<close>

lemma decode_zero:
  "decode_samples (replicate (4 * k) 0) = replicate k \<lparr> freq = 0, duration = 0 \<rparr>"
proof (induction k)
  case 0
  then show ?case by simp
next
  case (Suc k)
  have "replicate (4 * Suc k) (0 :: 8 word) = 0 # 0 # 0 # 0 # replicate (4 * k) 0"
    by (simp add: numeral_eq_Suc)
  then show ?case using Suc by (simp add: le16_def)
qed

lemma store_zero:
  "store_samples (\<lambda>_. \<lparr> freq = 0, duration = 0 \<rparr>) p (replicate k \<lparr> freq = 0, duration = 0 \<rparr>)
     = (\<lambda>_. \<lparr> freq = 0, duration = 0 \<rparr>)"
  by (auto simp add: store_samples_def fun_eq_iff)

lemma recv_31_rests:
  "piezo_recv 124 (replicate 124 0) piezo_init_state
     = Inr (False, piezo_init_state\<lparr> buffer_free_pos := 31 \<rparr>)"
proof -
  have "decode_samples (replicate 124 0) = replicate 31 \<lparr> freq = 0, duration = 0 \<rparr>"
    using decode_zero [of 31] by simp
  then show ?thesis
    by (simp add: recv_into_init) (simp add: piezo_init_state_def store_zero)
qed

lemma of_nat_small: "j < 32 \<Longrightarrow> unat (of_nat j :: 32 word) = j"
  by (simp add: unat_of_nat take_bit_nat_eq_self)

lemma succ_mod32:
  assumes "j < 31"
  shows "(of_nat j + 1 :: 32 word) mod 32 = of_nat (Suc j)"
proof -
  have u: "unat (of_nat j :: 32 word) = j" using assms by (simp add: of_nat_small)
  have "unat ((of_nat j + 1 :: 32 word) mod 32) = Suc j"
    using assms u unat_add_mod32 [of "of_nat j" 1] by simp
  then show ?thesis using assms by (simp only: word_unat_eq_iff of_nat_small)
qed

lemma tick_rest:
  assumes "j < 31"
  shows "tick_sample (piezo_init_state\<lparr> buffer_free_pos := 31, buffer_cur_pos := of_nat j \<rparr>)
           = Some \<lparr> freq = 0, duration = 0 \<rparr>
         \<and> piezo_tick (piezo_init_state\<lparr> buffer_free_pos := 31, buffer_cur_pos := of_nat j \<rparr>)
             = piezo_init_state\<lparr> buffer_free_pos := 31, buffer_cur_pos := of_nat (Suc j) \<rparr>"
proof -
  let ?s = "piezo_init_state\<lparr> buffer_free_pos := 31, buffer_cur_pos := of_nat j \<rparr>"
  have u: "unat (of_nat j :: 32 word) = j" using assms by (simp add: of_nat_small)
  then have ne: "(31 :: 32 word) \<noteq> of_nat j" using assms by (auto simp add: word_unat_eq_iff)
  have ts: "tick_sample ?s = Some \<lparr> freq = 0, duration = 0 \<rparr>"
    using ne by (simp add: tick_sample_def piezo_init_state_def)
  have "piezo_tick ?s = piezo_init_state\<lparr> buffer_free_pos := 31, buffer_cur_pos := of_nat (Suc j) \<rparr>"
    unfolding tick_take [OF ts]
    using succ_mod32 [OF assms]
    by (simp add: configure_piezo_timer_def PIEZO_BUFFER_LEN_def piezo_init_state_def)
  with ts show ?thesis by simp
qed

lemma ticks_rest:
  "j + k \<le> 31 \<Longrightarrow>
     run (replicate k Tick) (piezo_init_state\<lparr> buffer_free_pos := 31, buffer_cur_pos := of_nat j \<rparr>)
       = Inr (piezo_init_state\<lparr> buffer_free_pos := 31, buffer_cur_pos := of_nat (j + k) \<rparr>)
     \<and> played (replicate k Tick) (piezo_init_state\<lparr> buffer_free_pos := 31, buffer_cur_pos := of_nat j \<rparr>)
       = replicate k \<lparr> freq = 0, duration = 0 \<rparr>
     \<and> enqueued (replicate k Tick) (piezo_init_state\<lparr> buffer_free_pos := 31, buffer_cur_pos := of_nat j \<rparr>)
       = []
     \<and> occupancy (replicate k Tick)
          (piezo_init_state\<lparr> buffer_free_pos := 31, buffer_cur_pos := of_nat j \<rparr>) n
       = n - int k"
proof (induction k arbitrary: j n)
  case 0
  then show ?case by simp
next
  case (Suc k)
  then have j: "j < 31" and jk: "Suc j + k \<le> 31" by simp_all
  from Suc.IH [OF jk, of "n - 1"] tick_rest [OF j] show ?case by simp
qed

lemma ticks_rest_31:
  "run (replicate 31 Tick) (piezo_init_state\<lparr> buffer_free_pos := 31 \<rparr>)
       = Inr (piezo_init_state\<lparr> buffer_free_pos := 31, buffer_cur_pos := 31 \<rparr>)
   \<and> played (replicate 31 Tick) (piezo_init_state\<lparr> buffer_free_pos := 31 \<rparr>)
       = replicate 31 \<lparr> freq = 0, duration = 0 \<rparr>
   \<and> enqueued (replicate 31 Tick) (piezo_init_state\<lparr> buffer_free_pos := 31 \<rparr>) = []
   \<and> occupancy (replicate 31 Tick) (piezo_init_state\<lparr> buffer_free_pos := 31 \<rparr>) 31 = 0"
proof -
  have c0: "piezo_init_state\<lparr> buffer_free_pos := 31, buffer_cur_pos := of_nat 0 \<rparr>
              = piezo_init_state\<lparr> buffer_free_pos := 31 \<rparr>"
    by (simp add: piezo_init_state_def)
  have c31: "(of_nat (0 + 31) :: 32 word) = 31" by simp
  have z: "(31 :: int) - int 31 = 0" by simp
  have le: "0 + 31 \<le> (31 :: nat)" by simp
  from ticks_rest [OF le, of 31] show ?thesis unfolding c0 c31 z .
qed

lemma drained_run:
  "run (Recv 124 (replicate 124 0) # replicate 31 Tick) piezo_init_state
     = Inr (piezo_init_state\<lparr> buffer_free_pos := 31, buffer_cur_pos := 31 \<rparr>)"
  by (simp only: run.simps step.simps recv_31_rests then_do_simps prod.case ticks_rest_31)

lemma drained_played:
  "played (Recv 124 (replicate 124 0) # replicate 31 Tick) piezo_init_state
     = replicate 31 \<lparr> freq = 0, duration = 0 \<rparr>"
  by (simp only: played.simps recv_31_rests sum.case prod.case ticks_rest_31)

lemma drained_enqueued:
  "enqueued (Recv 124 (replicate 124 0) # replicate 31 Tick) piezo_init_state
     = replicate 31 \<lparr> freq = 0, duration = 0 \<rparr>"
proof -
  have d: "decode_samples (take (unat (124 :: 32 word)) (replicate 124 0))
             = replicate 31 \<lparr> freq = 0, duration = 0 \<rparr>"
    using decode_zero [of 31] by simp
  show ?thesis
    by (simp only: enqueued.simps recv_31_rests sum.case prod.case ticks_rest_31 d if_False
          append_Nil2)
qed

lemma drained_occupancy:
  "occupancy (Recv 124 (replicate 124 0) # replicate 31 Tick) piezo_init_state 0 = 0"
proof -
  have u: "(0 :: int) + uint ((124 :: 32 word) div 4) = 31" by simp
  show ?thesis
    by (simp only: occupancy.simps recv_31_rests sum.case prod.case if_False u ticks_rest_31)
qed

lemma recv_at_31:
  "piezo_recv 8 [101, 0, 0, 0, 102, 0, 0, 0]
       (piezo_init_state\<lparr> buffer_free_pos := 31, buffer_cur_pos := 31 \<rparr>)
     = Inl (Out_of_bounds
         ((\<lambda>_. \<lparr> freq = 0, duration = 0 \<rparr>)(31 := \<lparr> freq = 101, duration = 0 \<rparr>))
         [(32, \<lparr> freq = 102, duration = 0 \<rparr>)])"
proof -
  let ?s = "piezo_init_state\<lparr> buffer_free_pos := 31, buffer_cur_pos := 31 \<rparr>"
  have fs: "free_samples ?s = 32" by (simp add: free_samples_def PIEZO_BUFFER_LEN_def)
  have nr: "\<not> recv_refuses 8 ?s" by (simp add: recv_refuses_def fs)
  have ok: "cursors_ok ?s" by (simp add: cursors_ok_def PIEZO_BUFFER_LEN_def)
  have eq: "buffer_free_pos ?s = buffer_cur_pos ?s" by simp
  have over: "32 < unat (buffer_free_pos ?s) + unat ((8 :: 32 word) div 4)" by simp
  have st: "store_samples (\<lambda>_. \<lparr> freq = 0, duration = 0 \<rparr>) 31 [\<lparr> freq = 101, duration = 0 \<rparr>]
              = (\<lambda>_. \<lparr> freq = 0, duration = 0 \<rparr>)(31 := \<lparr> freq = 101, duration = 0 \<rparr>)"
    by (auto simp add: store_samples_def fun_eq_iff)
  show ?thesis
    unfolding recv_overrun [OF ok nr eq over]
    by (simp add: le16_def st) (simp add: piezo_init_state_def st)
qed

text \<open>
  C2 at a reachable state. 31 rests are queued and 31 ticks take them out, which leaves
  both cursors at 31 and the queue empty. A burst of two samples then passes the tests
  of \<open>piezo_recv\<close>. The first copy is skipped, and the second copy is asked to write
  both samples from cell 31 on: the first sample goes to cell 31, the second one to
  cell 32, the first cell behind the array, and cell 0, where it belongs, is not
  written.
\<close>

theorem recv_writes_past_end_of_buffer:
  "run (Recv 124 (replicate 124 0) # replicate 31 Tick) piezo_init_state
     = Inr (piezo_init_state\<lparr> buffer_free_pos := 31, buffer_cur_pos := 31 \<rparr>)
   \<and> \<not> returned_true (piezo_recv 8 [101, 0, 0, 0, 102, 0, 0, 0]
            (piezo_init_state\<lparr> buffer_free_pos := 31, buffer_cur_pos := 31 \<rparr>))
   \<and> piezo_recv 8 [101, 0, 0, 0, 102, 0, 0, 0]
        (piezo_init_state\<lparr> buffer_free_pos := 31, buffer_cur_pos := 31 \<rparr>)
       = Inl (Out_of_bounds
           ((sample_buffer piezo_init_state)(31 := \<lparr> freq = 101, duration = 0 \<rparr>))
           [(32, \<lparr> freq = 102, duration = 0 \<rparr>)])
   \<and> sample_buffer piezo_init_state 0 = \<lparr> freq = 0, duration = 0 \<rparr>
   \<and> \<not> 32 < unat PIEZO_BUFFER_LEN"
proof -
  have b: "sample_buffer piezo_init_state = (\<lambda>_. \<lparr> freq = 0, duration = 0 \<rparr>)"
    by (simp add: piezo_init_state_def)
  show ?thesis
    unfolding drained_run recv_at_31 b
    by (simp add: returned_true_def PIEZO_BUFFER_LEN_def)
qed

text \<open>
  C5 at the same state. The cursors are inside the array, the burst has a well-formed
  length and its two samples are fewer than the 32 that \<open>free_samples\<close> returns, but
  the call does not come back with \<open>false\<close> and an advanced free position: its copy
  leaves the array.
\<close>

theorem accepted_burst_leaves_array_at_wrap:
  "run (Recv 124 (replicate 124 0) # replicate 31 Tick) piezo_init_state
     = Inr (piezo_init_state\<lparr> buffer_free_pos := 31, buffer_cur_pos := 31 \<rparr>)
   \<and> cursors_ok (piezo_init_state\<lparr> buffer_free_pos := 31, buffer_cur_pos := 31 \<rparr>)
   \<and> (8 :: 32 word) \<noteq> 0 \<and> (8 :: 32 word) AND 3 = 0
   \<and> free_samples (piezo_init_state\<lparr> buffer_free_pos := 31, buffer_cur_pos := 31 \<rparr>) = 32
   \<and> (8 :: 32 word) div 4
        < free_samples (piezo_init_state\<lparr> buffer_free_pos := 31, buffer_cur_pos := 31 \<rparr>)
   \<and> isl (piezo_recv 8 [101, 0, 0, 0, 102, 0, 0, 0]
        (piezo_init_state\<lparr> buffer_free_pos := 31, buffer_cur_pos := 31 \<rparr>))"
  unfolding drained_run recv_at_31
  by (simp add: cursors_ok_def free_samples_def PIEZO_BUFFER_LEN_def)

text \<open>
  Away from that case a burst that fits is taken in as the specification says: when
  the cursors differ, or the burst ends at or before the end of the array, the call
  returns \<open>false\<close>, the free position advances by the sample count modulo 32, the read
  position stays and \<open>free_samples\<close> drops by the sample count.
\<close>

lemma recv_accepted_burst_inside_array:
  assumes ok: "cursors_ok s" and "sz \<noteq> 0" and "sz AND 3 = 0" and "sz div 4 < free_samples s"
    and fit: "buffer_free_pos s \<noteq> buffer_cur_pos s
              \<or> unat (buffer_free_pos s) + unat (sz div 4) \<le> 32"
  shows "\<exists>s'. piezo_recv sz data s = Inr (False, s')
           \<and> unat (buffer_free_pos s')
               = (unat (buffer_free_pos s) + unat (sz div 4)) mod unat PIEZO_BUFFER_LEN
           \<and> buffer_cur_pos s' = buffer_cur_pos s
           \<and> unat (free_samples s') = unat (free_samples s) - unat (sz div 4)"
proof -
  have nr: "\<not> recv_refuses sz s" using assms(2-4) by (simp add: recv_refuses_def not_le)
  from recv_in_array [OF ok nr fit, of data] obtain s' where
    r: "piezo_recv sz data s = Inr (False, s')" by blast
  note st = recv_state [OF ok r]
  have "unat (free_samples s') = 32 - (queued_count s + unat (sz div 4))"
    using st unat_free_samples [of s'] by simp
  then have "unat (free_samples s') = unat (free_samples s) - unat (sz div 4)"
    using unat_free_samples [OF ok] by simp
  with r st show ?thesis by (simp add: PIEZO_BUFFER_LEN_def)
qed

text \<open>
  C7 on the same history, continued by the burst of two samples. After the 31 rests
  have been taken in and out the count is 0; the next call passes the capacity test
  and its copy leaves the array, so the history has no state of the driver after it
  of which the invariant could hold.
\<close>

theorem history_leaves_array:
  "run (Recv 124 (replicate 124 0) # replicate 31 Tick) piezo_init_state
     = Inr (piezo_init_state\<lparr> buffer_free_pos := 31, buffer_cur_pos := 31 \<rparr>)
   \<and> occupancy (Recv 124 (replicate 124 0) # replicate 31 Tick) piezo_init_state 0 = 0
   \<and> run ((Recv 124 (replicate 124 0) # replicate 31 Tick)
            @ [Recv 8 [101, 0, 0, 0, 102, 0, 0, 0]]) piezo_init_state
       = Inl (Out_of_bounds
           ((sample_buffer piezo_init_state)(31 := \<lparr> freq = 101, duration = 0 \<rparr>))
           [(32, \<lparr> freq = 102, duration = 0 \<rparr>)])"
proof -
  have b: "sample_buffer piezo_init_state = (\<lambda>_. \<lparr> freq = 0, duration = 0 \<rparr>)"
    by (simp add: piezo_init_state_def)
  have "run ((Recv 124 (replicate 124 0) # replicate 31 Tick)
            @ [Recv 8 [101, 0, 0, 0, 102, 0, 0, 0]]) piezo_init_state
       = Inl (Out_of_bounds
           ((sample_buffer piezo_init_state)(31 := \<lparr> freq = 101, duration = 0 \<rparr>))
           [(32, \<lparr> freq = 102, duration = 0 \<rparr>)])"
    unfolding run_append drained_run
    by (simp only: then_do_simps run.simps step.simps recv_at_31 b)
  then show ?thesis by (simp only: drained_run drained_occupancy simp_thms)
qed

section \<open>Order of play\<close>

text \<open>
  C8 on the same history. The 31 rests are taken in and played in order and the queue
  is empty. The burst of 101 Hz and 102 Hz then passes the tests of \<open>piezo_recv\<close>, but
  its copy puts only the 101 Hz sample into the array: the 102 Hz sample is in no cell
  of the array, so no tick can play it, and cell 0, the cell that a tick reads after
  cell 31, still holds an old rest.
\<close>

theorem fifo_broken_when_wrapping_from_empty:
  "run (Recv 124 (replicate 124 0) # replicate 31 Tick) piezo_init_state
     = Inr (piezo_init_state\<lparr> buffer_free_pos := 31, buffer_cur_pos := 31 \<rparr>)
   \<and> enqueued (Recv 124 (replicate 124 0) # replicate 31 Tick) piezo_init_state
       = replicate 31 \<lparr> freq = 0, duration = 0 \<rparr>
   \<and> played (Recv 124 (replicate 124 0) # replicate 31 Tick) piezo_init_state
       = replicate 31 \<lparr> freq = 0, duration = 0 \<rparr>
   \<and> tick_sample (piezo_init_state\<lparr> buffer_free_pos := 31, buffer_cur_pos := 31 \<rparr>) = None
   \<and> \<not> returned_true (piezo_recv 8 [101, 0, 0, 0, 102, 0, 0, 0]
            (piezo_init_state\<lparr> buffer_free_pos := 31, buffer_cur_pos := 31 \<rparr>))
   \<and> piezo_recv 8 [101, 0, 0, 0, 102, 0, 0, 0]
        (piezo_init_state\<lparr> buffer_free_pos := 31, buffer_cur_pos := 31 \<rparr>)
       = Inl (Out_of_bounds
           ((sample_buffer piezo_init_state)(31 := \<lparr> freq = 101, duration = 0 \<rparr>))
           [(32, \<lparr> freq = 102, duration = 0 \<rparr>)])
   \<and> \<lparr> freq = 102, duration = 0 \<rparr>
        \<notin> set (map ((sample_buffer piezo_init_state)(31 := \<lparr> freq = 101, duration = 0 \<rparr>))
                 [0 ..< unat PIEZO_BUFFER_LEN])
   \<and> ((sample_buffer piezo_init_state)(31 := \<lparr> freq = 101, duration = 0 \<rparr>))
        (unat (((31 :: 32 word) + 1) mod PIEZO_BUFFER_LEN)) = \<lparr> freq = 0, duration = 0 \<rparr>"
proof -
  have b: "sample_buffer piezo_init_state = (\<lambda>_. \<lparr> freq = 0, duration = 0 \<rparr>)"
    by (simp add: piezo_init_state_def)
  have t: "tick_sample (piezo_init_state\<lparr> buffer_free_pos := 31, buffer_cur_pos := 31 \<rparr>) = None"
    by (simp add: tick_sample_def)
  have m: "\<lparr> freq = 102, duration = 0 \<rparr>
        \<notin> set (map ((\<lambda>_. \<lparr> freq = 0, duration = 0 \<rparr>)(31 := \<lparr> freq = 101, duration = 0 \<rparr>))
                 [0 ..< unat PIEZO_BUFFER_LEN])"
    by (auto simp add: PIEZO_BUFFER_LEN_def)
  show ?thesis
    unfolding drained_run drained_enqueued drained_played recv_at_31 b
    using t m by (simp add: returned_true_def PIEZO_BUFFER_LEN_def)
qed

section \<open>The startup sequence\<close>

lemma le16_bytes: "le16 (ucast w) (ucast (drop_bit 8 w)) = (w :: 16 word)"
  unfolding le16_def
  by (rule bit_word_eqI) (auto simp add: bit_simps)

lemma decode_sample_bytes: "decode_samples (sample_bytes ps) = [ps]"
  by (simp add: sample_bytes_def le16_bytes)

lemma ucast_low_byte: "(ucast ((v :: 32 word) AND 0xFF) :: 8 word) = ucast v"
proof -
  have "v AND 0xFF = v AND mask 8" by (simp add: mask_eq_exp_minus_1)
  also have "\<dots> = take_bit 8 v" by (simp add: take_bit_eq_mask)
  finally have e: "v AND 0xFF = take_bit 8 v" .
  show ?thesis unfolding e
    by (rule bit_word_eqI) (auto simp add: bit_simps)
qed

lemma unat_and3_byte: "unat ((w :: 8 word) AND 3) = unat w mod 4"
proof -
  have "w AND 3 = w AND mask 2" by (simp add: mask_eq_exp_minus_1)
  also have "\<dots> = take_bit 2 w" by (simp add: take_bit_eq_mask)
  finally have e: "w AND 3 = take_bit 2 w" .
  show ?thesis unfolding e by (simp add: unsigned_take_bit_eq take_bit_eq_mod unat_mod)
qed

lemma tone_count_fields:
  "unat ((r :: 8 word) AND 3) = field_value r 0"
  "unat (drop_bit 2 r AND 3) = field_value r 1"
  "unat (drop_bit 4 r AND 3) = field_value r 2"
  "unat (drop_bit 6 r AND 3) = field_value r 3"
  by (simp_all add: unat_and3_byte field_value_def drop_bit_eq_div unat_div)

lemma feed_append: "feed (xs @ ys) s = then_do (feed xs s) (feed ys)"
proof (induction xs arbitrary: s)
  case Nil
  then show ?case by simp
next
  case (Cons x xs)
  then show ?case by (cases "recv_sample x s") simp_all
qed

lemma beep_once_feed:
  "beep_once f s = feed [\<lparr> freq = f, duration = 150 \<rparr>, \<lparr> freq = 0, duration = 15 \<rparr>] s"
proof (cases "recv_sample \<lparr> freq = f, duration = 150 \<rparr> s")
  case (Inl e)
  then show ?thesis by (simp add: beep_once_def Let_def)
next
  case (Inr s1)
  then show ?thesis
    by (cases "recv_sample \<lparr> freq = 0, duration = 15 \<rparr> s1") (simp_all add: beep_once_def Let_def)
qed

lemma beep_loop_feed:
  "beep_loop n f s =
     feed (concat (replicate n [\<lparr> freq = f, duration = 150 \<rparr>, \<lparr> freq = 0, duration = 15 \<rparr>])) s"
proof (induction n arbitrary: s)
  case 0
  then show ?case by simp
next
  case (Suc n)
  let ?p = "[\<lparr> freq = f, duration = 150 \<rparr>, \<lparr> freq = 0, duration = 15 \<rparr>]"
  have ih: "beep_loop n f = feed (concat (replicate n ?p))"
    by (rule ext) (rule Suc)
  have c: "concat (replicate (Suc n) ?p) = ?p @ concat (replicate n ?p)" by simp
  show ?case
    by (simp only: beep_loop.simps ih beep_once_feed c feed_append)
qed

lemma init_beep_feed:
  "piezo_init_beep v s = feed (startup_sequence_spec (ucast v)) s"
proof -
  have f: "field_value (ucast v) 0 = unat ((ucast v :: 8 word) AND 3)"
    "field_value (ucast v) (Suc 0) = unat (drop_bit 2 (ucast v :: 8 word) AND 3)"
    "field_value (ucast v) 2 = unat (drop_bit 4 (ucast v :: 8 word) AND 3)"
    "field_value (ucast v) 3 = unat (drop_bit 6 (ucast v :: 8 word) AND 3)"
    using tone_count_fields [of "ucast v"] by simp_all
  have bl: "\<And>n fr. beep_loop n fr
              = feed (concat (replicate n [\<lparr> freq = fr, duration = 150 \<rparr>,
                                           \<lparr> freq = 0, duration = 15 \<rparr>]))"
    by (rule ext) (rule beep_loop_feed)
  have fa: "\<And>xs ys s'. then_do (feed xs s') (feed ys) = feed (xs @ ys) s'"
    by (simp add: feed_append)
  have i: "(Inr s :: fault + piezo_state) = feed [] s" by simp
  show ?thesis
    unfolding piezo_init_beep_def startup_sequence_spec_def Let_def bl
    by (simp add: ucast_low_byte fw_tones_def f del: feed.simps)
      (simp only: i fa append_Nil append_assoc)
qed

lemma length_startup: "length (startup_sequence_spec r) \<le> 24"
proof -
  have f: "\<And>k. field_value r k \<le> 3" by (simp add: field_value_def)
  have "length (startup_sequence_spec r)
          = 2 * field_value r 3 + 2 * field_value r 2 + 2 * field_value r 1 + 2 * field_value r 0"
    by (simp add: startup_sequence_spec_def length_concat sum_list_replicate)
  then show ?thesis using f [of 0] f [of 1] f [of 2] f [of 3] by simp
qed

lemma recv_sample_ok:
  assumes ok: "cursors_ok s" and room: "1 < free_samples s"
  shows "recv_sample ps s =
           Inr (s\<lparr> sample_buffer := (sample_buffer s)(unat (buffer_free_pos s) := ps),
                   buffer_free_pos := (buffer_free_pos s + 1) mod 32 \<rparr>)"
proof -
  have st: "\<And>buf p. store_samples buf p [ps] = buf(p := ps)"
    by (auto simp add: store_samples_def fun_eq_iff)
  have tk: "take 4 (sample_bytes ps) = sample_bytes ps" by (simp add: sample_bytes_def)
  have nle: "\<not> free_samples s \<le> 1" using room by simp
  have f32: "buffer_free_pos s < 32" using ok by (simp add: cursors_ok_def PIEZO_BUFFER_LEN_def)
  then have u: "unat (buffer_free_pos s) < 32" by (simp add: word_less_nat_alt)
  then have "unat (32 - buffer_free_pos s) = 32 - unat (buffer_free_pos s)"
    using f32 by (simp add: unat_sub)
  then have "1 \<le> unat (32 - buffer_free_pos s)" using u by simp
  then have "1 \<le> 32 - buffer_free_pos s" by (simp add: word_le_nat_alt)
  then have m: "min (32 - buffer_free_pos s) 1 = 1" by simp
  have "unat (4 :: 32 word) \<le> 4 * (32 - unat (buffer_free_pos s))" using u by simp
  note mi = memcpy_inside [OF this]
  show ?thesis
    using nle m
    by (simp add: recv_sample_def piezo_recv_def recv_copy_back_def recv_copy_front_def Let_def
          mi decode_sample_bytes st PIEZO_BUFFER_LEN_def tk)
qed

lemma fill_from_front:
  assumes "buffer_cur_pos s = 0" and "buffer_free_pos s = of_nat j" and "j + length xs \<le> 31"
  shows "\<exists>s'. feed xs s = Inr s'
         \<and> buffer_cur_pos s' = 0
         \<and> buffer_free_pos s' = of_nat (j + length xs)
         \<and> (\<forall>i<j. sample_buffer s' i = sample_buffer s i)
         \<and> (\<forall>i<length xs. sample_buffer s' (j + i) = xs ! i)"
  using assms
proof (induction xs arbitrary: s j)
  case Nil
  then show ?case by simp
next
  case (Cons x xs)
  from Cons.prems(3) have j: "j < 31" by simp
  then have uj: "unat (of_nat j :: 32 word) = j" by (simp add: of_nat_small)
  have ok: "cursors_ok s"
    using Cons.prems(1,2) uj j by (simp add: cursors_ok_unat)
  have "queued_count s = j"
    using Cons.prems(1,2) uj j by (simp add: queued_count_def PIEZO_BUFFER_LEN_def)
  then have "unat (free_samples s) = 32 - j" by (simp add: unat_free_samples [OF ok])
  then have room: "1 < free_samples s" using j by (simp add: word_less_nat_alt)
  define s1 where "s1 = s\<lparr> sample_buffer := (sample_buffer s)(j := x),
                            buffer_free_pos := of_nat (Suc j) \<rparr>"
  have r1: "recv_sample x s = Inr s1"
    using recv_sample_ok [OF ok room, of x] Cons.prems(2) uj succ_mod32 [OF j]
    by (simp add: s1_def)
  have c1: "buffer_cur_pos s1 = 0" using Cons.prems(1) by (simp add: s1_def)
  have f1: "buffer_free_pos s1 = of_nat (Suc j)" by (simp add: s1_def)
  have l1: "Suc j + length xs \<le> 31" using Cons.prems(3) by simp
  from Cons.IH [OF c1 f1 l1] obtain s' where
    ih: "feed xs s1 = Inr s'" "buffer_cur_pos s' = 0"
      "buffer_free_pos s' = of_nat (Suc j + length xs)"
      "\<forall>i<Suc j. sample_buffer s' i = sample_buffer s1 i"
      "\<forall>i<length xs. sample_buffer s' (Suc j + i) = xs ! i"
    by blast
  have below: "\<forall>i<j. sample_buffer s' i = sample_buffer s i"
    using ih(4) by (simp add: s1_def)
  have atj: "sample_buffer s' j = x"
    using ih(4) by (simp add: s1_def)
  have cells: "\<forall>i<length (x # xs). sample_buffer s' (j + i) = (x # xs) ! i"
  proof (intro allI impI)
    fix i assume "i < length (x # xs)"
    then show "sample_buffer s' (j + i) = (x # xs) ! i"
      using atj ih(5) by (cases i) simp_all
  qed
  have "feed (x # xs) s = Inr s'" by (simp add: r1 ih(1))
  with ih(2,3) below cells show ?case by simp
qed

lemma startup_6C:
  "startup_sequence_spec 0x6C =
     [\<lparr> freq = 130, duration = 150 \<rparr>, \<lparr> freq = 0, duration = 15 \<rparr>,
      \<lparr> freq = 164, duration = 150 \<rparr>, \<lparr> freq = 0, duration = 15 \<rparr>,
      \<lparr> freq = 164, duration = 150 \<rparr>, \<lparr> freq = 0, duration = 15 \<rparr>,
      \<lparr> freq = 196, duration = 150 \<rparr>, \<lparr> freq = 0, duration = 15 \<rparr>,
      \<lparr> freq = 196, duration = 150 \<rparr>, \<lparr> freq = 0, duration = 15 \<rparr>,
      \<lparr> freq = 196, duration = 150 \<rparr>, \<lparr> freq = 0, duration = 15 \<rparr>]"
proof -
  have f: "field_value 0x6C 3 = Suc 0" "field_value 0x6C 2 = Suc (Suc 0)"
    "field_value 0x6C (Suc 0) = Suc (Suc (Suc 0))" "field_value 0x6C 0 = 0"
    by (simp_all add: field_value_def)
  show ?thesis by (simp add: startup_sequence_spec_def f fw_tones_def)
qed

lemma queue_after_fill:
  assumes "length xs \<le> 31"
  shows "map_sum id queued_samples (feed xs piezo_init_state) = Inr xs"
proof -
  have c: "buffer_cur_pos piezo_init_state = 0" "buffer_free_pos piezo_init_state = of_nat 0"
    by (simp_all add: piezo_init_state_def)
  have l: "0 + length xs \<le> 31" using assms by simp
  from fill_from_front [OF c l] obtain s' where
    r: "feed xs piezo_init_state = Inr s'" "buffer_cur_pos s' = 0"
      "buffer_free_pos s' = of_nat (length xs)"
      "\<And>i. i < length xs \<Longrightarrow> sample_buffer s' i = xs ! i"
    by auto
  have u: "unat (of_nat (length xs) :: 32 word) = length xs"
    using assms by (simp add: of_nat_small)
  have n: "queued_count s' = length xs"
    using assms by (simp add: queued_count_def PIEZO_BUFFER_LEN_def r u)
  have "queued_samples s' = xs"
    unfolding queued_samples_def n
    using assms by (intro nth_equalityI) (simp_all add: r PIEZO_BUFFER_LEN_def)
  then show ?thesis by (simp add: r(1))
qed

section \<open>What the startup beeps play\<close>

text \<open>
  C10. For every value of the revision register, whose low byte \<open>r\<close> is the revision
  byte, \<open>piezo_init_beep\<close> hands to \<open>piezo_recv\<close>, one 4-byte call per sample, exactly
  the sequence of the specification: for each 2-bit field of \<open>r\<close>, most significant
  first, as many pairs (150 ms tone at the field's frequency, 15 ms silence with
  frequency 0) as the field's value. From the initial empty queue every sample is
  accepted, every copy stays inside the array, and the queue then holds that sequence
  in order; for \<open>r = 0b01101100\<close> these are the 12 samples of the fields 1, 2, 3, 0.
\<close>

theorem init_beep_plays_revision_fields:
  "piezo_init_beep v s = feed (startup_sequence_spec (ucast v)) s
   \<and> map_sum id queued_samples (piezo_init_beep v piezo_init_state)
       = Inr (startup_sequence_spec (ucast v))
   \<and> map_sum id queued_samples (piezo_init_beep 0x6C piezo_init_state) =
       Inr [\<lparr> freq = 130, duration = 150 \<rparr>, \<lparr> freq = 0, duration = 15 \<rparr>,
            \<lparr> freq = 164, duration = 150 \<rparr>, \<lparr> freq = 0, duration = 15 \<rparr>,
            \<lparr> freq = 164, duration = 150 \<rparr>, \<lparr> freq = 0, duration = 15 \<rparr>,
            \<lparr> freq = 196, duration = 150 \<rparr>, \<lparr> freq = 0, duration = 15 \<rparr>,
            \<lparr> freq = 196, duration = 150 \<rparr>, \<lparr> freq = 0, duration = 15 \<rparr>,
            \<lparr> freq = 196, duration = 150 \<rparr>, \<lparr> freq = 0, duration = 15 \<rparr>]"
proof -
  have q: "\<And>w. map_sum id queued_samples (piezo_init_beep w piezo_init_state)
                 = Inr (startup_sequence_spec (ucast w))"
  proof -
    fix w :: "32 word"
    have "length (startup_sequence_spec (ucast w)) \<le> 31"
      using length_startup [of "ucast w"] by simp
    then show "map_sum id queued_samples (piezo_init_beep w piezo_init_state)
                 = Inr (startup_sequence_spec (ucast w))"
      by (simp only: init_beep_feed queue_after_fill)
  qed
  have b: "(ucast (0x6C :: 32 word) :: 8 word) = 0x6C" by simp
  have e: "map_sum id queued_samples (piezo_init_beep 0x6C piezo_init_state)
             = Inr (startup_sequence_spec 0x6C)"
    using q [of "0x6C"] by (simp only: b)
  have a: "piezo_init_beep v s = feed (startup_sequence_spec (ucast v)) s"
    by (rule init_beep_feed)
  from a q [of v] e [unfolded startup_6C] show ?thesis by (intro conjI)
qed

end
